theory Spec2Isabelle
  imports
    Main
    "HOL-Library.FSet"
    "HOL-Library.Char_ord"
    "HOL-Library.List_Lexorder"
    "HOL-Library.Sublist"
begin

section \<open>Data model of cf-lambda.py\<close>

text \<open>
  The program keeps two EC2 managed prefix lists in step with the address ranges
  published by Cloudflare. Everything it learns about a prefix list comes from the boto3
  EC2 client, whose responses are Python dictionaries. A dictionary whose keys are known
  is a record with one optional field per key: a field is \<open>None\<close> when the key is absent or
  holds Python's \<open>None\<close>, which \<open>dict.get\<close> cannot tell apart. Integer fields carry
  integers and string fields carry strings, as the EC2 API types them. A Python string is
  the list of the bytes of its UTF-8 encoding: equality, order and substring tests on
  the bytes agree with Python's on the characters, and the two operations that count or
  classify characters, slicing and \<open>strip\<close>, are written below on the encoding.
\<close>

record prefix_list =
  PrefixListId :: "string option"
  PrefixListName :: "string option"
  MaxEntries :: "int option"
  OwnerId :: "string option"
  Version :: "int option"
  State :: "string option"
  PrefixListArn :: "string option"
  OtherKeys :: "(string \<times> string) list"
    \<comment> \<open>every further key of the dictionary (AddressFamily, Tags, Cidrs, ...)\<close>

record entry =
  Cidr :: "string option"
  Description :: "string option"

text \<open>One response shape covers the four API operations; each reads the keys it needs.\<close>

record response =
  ManagedPrefixLists :: "prefix_list list option"
  PrefixLists :: "prefix_list list option"
  NextToken :: "string option"
  Entries :: "entry list option"
  PrefixList :: "prefix_list option"

definition empty_response :: response where
  "empty_response =
     \<lparr>ManagedPrefixLists = None, PrefixLists = None, NextToken = None,
      Entries = None, PrefixList = None\<rparr>"

text \<open>
  The exceptions the client can raise: botocore's \<open>ClientError\<close>, with the text that
  \<open>str(e)\<close> gives, and every other exception (connection failures, parameter validation).
\<close>

datatype exn = ClientError string | OtherException string

text \<open>The keyword arguments of the four operations; an omitted keyword is \<open>None\<close>.\<close>

datatype call =
    DescribeManagedPrefixLists "string list option" "string option"
      \<comment> \<open>PrefixListIds, NextToken\<close>
  | DescribePrefixLists "string option"
      \<comment> \<open>NextToken\<close>
  | GetManagedPrefixListEntries string "string option"
      \<comment> \<open>PrefixListId, NextToken\<close>
  | ModifyManagedPrefixList string int "entry list option" "entry list option"
      \<comment> \<open>PrefixListId, CurrentVersion, AddEntries, RemoveEntries\<close>

text \<open>The dictionary that \<open>apply_delta\<close> returns, and the summary of \<open>handler\<close>.\<close>

datatype remark =
    Note_foreign_owner string string
      \<comment> \<open>note: OWNER=owner != account_owner. Lista AWS-managed; se omite modificacion.\<close>
  | Summary_up_to_date string nat
      \<comment> \<open>summary: id: up to date (n entries)\<close>
  | Summary_applied string nat nat int
      \<comment> \<open>summary: id: +a/-r -> v\<close>

record result =
  id_res :: string
  from_version :: int
  to_version :: int
  added :: "string list"
  removed :: "string list"
  changed :: bool
  remark :: remark

record summary =
  account :: string
  default_region :: string
  used_regions_v4 :: "string option"
  used_regions_v6 :: "string option"
  counts_v4 :: nat
  counts_v6 :: nat
  results :: "result list"

text \<open>
  Everything the program does to the outside world is an event, and the state threaded
  through the model is the list of events so far. The client answers a call from the
  whole history, so that any deterministic provider, however stateful, is a value of
  \<open>ec2_client\<close>.
\<close>

datatype event =
    Call call
  | Sleep nat
      \<comment> \<open>\<open>time.sleep(backoff * 2 ** i)\<close> with \<open>backoff = 0.5\<close>; the event records \<open>i\<close>\<close>
  | SlackPost "result list" nat nat
      \<comment> \<open>\<open>notify_slack\<close> with the changed results and the two counts\<close>
  | PrintSlackSkipped
  | PrintSummary summary

record ec2_client =
  region_name :: string
  api :: "event list \<Rightarrow> call \<Rightarrow> exn + response"

text \<open>The exceptions that leave the program's functions.\<close>

record preview =
  Id :: "string option"
  Name :: "string option"
  Owner :: "string option"

datatype error =
    Raised exn
      \<comment> \<open>an exception of the client that nothing caught\<close>
  | PrefixListNotFound nat string string string "string option" "preview list"
      \<comment> \<open>the RuntimeError of \<open>_describe_pl_with_retries\<close>: attempts, account, region, id, name, sample\<close>
  | DesiredExceedsMaxEntries nat int string
      \<comment> \<open>the RuntimeError of \<open>apply_delta\<close>: len(want), max_entries, prefix_list_id\<close>
  | KeyError string

text \<open>
  A computation takes the history and returns an exception or a value, with the history
  extended. It returns \<open>None\<close> when the Python does not return at all: the pagination
  loops run for as long as the provider keeps sending continuation tokens.
\<close>

type_synonym 'a io = "event list \<Rightarrow> ((error + 'a) \<times> event list) option"

definition return_io :: "'a \<Rightarrow> 'a io" where
  "return_io x tr = Some (Inr x, tr)"

definition raise_io :: "error \<Rightarrow> 'a io" where
  "raise_io e tr = Some (Inl e, tr)"

definition bind_io :: "'a io \<Rightarrow> ('a \<Rightarrow> 'b io) \<Rightarrow> 'b io" where
  "bind_io m f tr =
     (case m tr of
        None \<Rightarrow> None
      | Some (Inl e, tr') \<Rightarrow> Some (Inl e, tr')
      | Some (Inr x, tr') \<Rightarrow> f x tr')"

text \<open>Python's truth test on an optional string, and the module's constants.\<close>

definition truthy :: "'a list option \<Rightarrow> bool" where
  "truthy v = (case v of None \<Rightarrow> False | Some s \<Rightarrow> s \<noteq> [])"

definition keep_truthy :: "'a list option \<Rightarrow> 'a list option" where
  "keep_truthy v = (if truthy v then v else None)"

text \<open>
  \<open>s[:n]\<close>, the first \<open>n\<close> characters: a character is one byte that is not a
  continuation byte (\<open>10xxxxxx\<close>) followed by its continuation bytes.
\<close>

definition is_continuation :: "char \<Rightarrow> bool" where
  "is_continuation c = (128 \<le> (of_char c :: nat) \<and> (of_char c :: nat) < 192)"

fun take_chars :: "nat \<Rightarrow> string \<Rightarrow> string" where
  "take_chars 0 s = []"
| "take_chars (Suc n) [] = []"
| "take_chars (Suc n) (c # cs) =
     c # takeWhile is_continuation cs @ take_chars n (dropWhile is_continuation cs)"





definition DESCR_DEFAULT :: string where
  "DESCR_DEFAULT = ''Cloudflare IP''"

definition MAX_BATCH :: nat where
  "MAX_BATCH = 80"

definition PL_DESCR_TRUNC :: nat where
  "PL_DESCR_TRUNC = 100"

section \<open>Prefix list discovery\<close>

definition pls :: "response \<Rightarrow> prefix_list list" where
  "pls resp =
     (if truthy (ManagedPrefixLists resp) then the (ManagedPrefixLists resp)
      else if truthy (PrefixLists resp) then the (PrefixLists resp)
      else [])"

definition describe_managed_pls ::
  "ec2_client \<Rightarrow> string list option \<Rightarrow> string option \<Rightarrow> event list
     \<Rightarrow> (error + response) \<times> event list" where
  "describe_managed_pls ec2 ids next_token tr =
     (let c = DescribeManagedPrefixLists (keep_truthy ids) (keep_truthy next_token) in
      case api ec2 tr c of
        Inr resp \<Rightarrow> (Inr resp, tr @ [Call c])
      | Inl (ClientError msg) \<Rightarrow>
          (Inr (empty_response\<lparr>ManagedPrefixLists := Some []\<rparr>), tr @ [Call c])
      | Inl (OtherException msg) \<Rightarrow> (Inl (Raised (OtherException msg)), tr @ [Call c]))"

definition describe_prefix_pls ::
  "ec2_client \<Rightarrow> string option \<Rightarrow> event list \<Rightarrow> (error + response) \<times> event list" where
  "describe_prefix_pls ec2 next_token tr =
     (let c = DescribePrefixLists (keep_truthy next_token) in
      case api ec2 tr c of
        Inr resp \<Rightarrow> (Inr resp, tr @ [Call c])
      | Inl (ClientError msg) \<Rightarrow>
          (Inr (empty_response\<lparr>PrefixLists := Some []\<rparr>), tr @ [Call c])
      | Inl (OtherException msg) \<Rightarrow> (Inl (Raised (OtherException msg)), tr @ [Call c]))"

text \<open>
  The two \<open>for pl in _pls(resp)\<close> loops of \<open>_list_all_pls\<close>: the state is the set \<open>seen\<close>
  and the list \<open>out\<close>. The first appends the record as it came, the second a dictionary
  of seven keys copied from it.
\<close>

definition common_record :: "string \<Rightarrow> prefix_list \<Rightarrow> prefix_list" where
  "common_record pid pl =
     \<lparr>PrefixListId = Some pid,
      PrefixListName = PrefixListName pl,
      MaxEntries = MaxEntries pl,
      OwnerId = OwnerId pl,
      Version = Version pl,
      State = State pl,
      PrefixListArn = PrefixListArn pl,
      OtherKeys = []\<rparr>"

fun merge_managed ::
  "prefix_list list \<Rightarrow> string fset \<times> prefix_list list \<Rightarrow> string fset \<times> prefix_list list" where
  "merge_managed [] (seen, out) = (seen, out)"
| "merge_managed (pl # rest) (seen, out) =
     (let pid = PrefixListId pl in
      if truthy pid \<and> the pid |\<notin>| seen
      then merge_managed rest (finsert (the pid) seen, out @ [pl])
      else merge_managed rest (seen, out))"

fun merge_prefix ::
  "prefix_list list \<Rightarrow> string fset \<times> prefix_list list \<Rightarrow> string fset \<times> prefix_list list" where
  "merge_prefix [] (seen, out) = (seen, out)"
| "merge_prefix (pl # rest) (seen, out) =
     (let pid = PrefixListId pl in
      if truthy pid \<and> the pid |\<notin>| seen
      then merge_prefix rest (finsert (the pid) seen, out @ [common_record (the pid) pl])
      else merge_prefix rest (seen, out))"

text \<open>The two \<open>while True\<close> loops: one iteration per page, until a page has no token.\<close>

partial_function (option) managed_pages ::
  "ec2_client \<Rightarrow> string option \<Rightarrow> string fset \<times> prefix_list list \<Rightarrow> event list
     \<Rightarrow> ((error + string fset \<times> prefix_list list) \<times> event list) option" where
  "managed_pages ec2 token acc tr =
     (case describe_managed_pls ec2 None token tr of
        (Inl e, tr') \<Rightarrow> Some (Inl e, tr')
      | (Inr resp, tr') \<Rightarrow>
          if truthy (NextToken resp)
          then managed_pages ec2 (NextToken resp) (merge_managed (pls resp) acc) tr'
          else Some (Inr (merge_managed (pls resp) acc), tr'))"

partial_function (option) prefix_pages ::
  "ec2_client \<Rightarrow> string option \<Rightarrow> string fset \<times> prefix_list list \<Rightarrow> event list
     \<Rightarrow> ((error + string fset \<times> prefix_list list) \<times> event list) option" where
  "prefix_pages ec2 token acc tr =
     (case describe_prefix_pls ec2 token tr of
        (Inl e, tr') \<Rightarrow> Some (Inl e, tr')
      | (Inr resp, tr') \<Rightarrow>
          if truthy (NextToken resp)
          then prefix_pages ec2 (NextToken resp) (merge_prefix (pls resp) acc) tr'
          else Some (Inr (merge_prefix (pls resp) acc), tr'))"

declare managed_pages.simps [code]
declare prefix_pages.simps [code]

definition list_all_pls :: "ec2_client \<Rightarrow> prefix_list list io" where
  "list_all_pls ec2 =
     bind_io (managed_pages ec2 None ({||}, []))
       (\<lambda>acc. bind_io (prefix_pages ec2 None acc)
          (\<lambda>(seen, out). return_io out))"

text \<open>
  The module's globals, fixed when the module is loaded: the caller's account, the
  default client, and the session's way of making a client for another region.
\<close>

record globals =
  ACCOUNT :: string
  DEFAULT_EC2 :: ec2_client
  SESSION_client :: "string \<Rightarrow> ec2_client"



text \<open>
  \<open>_find_pl\<close>: a direct lookup by id, then the merged listing searched by id, then (with a
  name) a second merged listing searched by name. The id is a string, empty when no id
  is configured: \<open>handler\<close> passes \<open>pl4_id or ""\<close>.
\<close>

definition find_direct :: "ec2_client \<Rightarrow> string \<Rightarrow> prefix_list option io" where
  "find_direct ec2 prefix_list_id tr =
     (if prefix_list_id \<noteq> [] then
        (case describe_managed_pls ec2 (Some [prefix_list_id]) None tr of
           (Inl e, tr') \<Rightarrow> Some (Inl e, tr')
         | (Inr resp, tr') \<Rightarrow>
             Some (Inr (case pls resp of [] \<Rightarrow> None | pl # rest \<Rightarrow> Some pl), tr'))
      else Some (Inr None, tr))"

definition find_by_id :: "string \<Rightarrow> prefix_list list \<Rightarrow> prefix_list option" where
  "find_by_id prefix_list_id all =
     find (\<lambda>pl. prefix_list_id \<noteq> [] \<and> PrefixListId pl = Some prefix_list_id) all"

definition find_by_name :: "string option \<Rightarrow> prefix_list list \<Rightarrow> prefix_list option" where
  "find_by_name fallback_name all = find (\<lambda>pl. PrefixListName pl = fallback_name) all"

definition find_pl :: "ec2_client \<Rightarrow> string \<Rightarrow> string option \<Rightarrow> prefix_list option io" where
  "find_pl ec2 prefix_list_id fallback_name =
     bind_io (find_direct ec2 prefix_list_id)
       (\<lambda>direct. case direct of
          Some pl \<Rightarrow> return_io (Some pl)
        | None \<Rightarrow>
            bind_io (list_all_pls ec2)
              (\<lambda>all. case find_by_id prefix_list_id all of
                 Some pl \<Rightarrow> return_io (Some pl)
               | None \<Rightarrow>
                   if truthy fallback_name
                   then bind_io (list_all_pls ec2)
                          (\<lambda>again. return_io (find_by_name fallback_name again))
                   else return_io None))"

text \<open>
  \<open>_describe_pl_with_retries\<close>: \<open>for i in range(attempts)\<close>, with the number of rounds
  still to run as the first argument. \<open>if pl\<close> is false for \<open>None\<close> and for the empty
  dictionary. The API sends no key with the value \<open>None\<close>, so the record whose fields are
  all \<open>None\<close> and which has no other key stands for the empty dictionary; a record built
  by \<open>_list_all_pls\<close> always has its identifier.
\<close>

definition empty_dict :: prefix_list where
  "empty_dict =
     \<lparr>PrefixListId = None, PrefixListName = None, MaxEntries = None, OwnerId = None,
      Version = None, State = None, PrefixListArn = None, OtherKeys = []\<rparr>"

definition sample :: "prefix_list list \<Rightarrow> preview list" where
  "sample last_seen =
     map (\<lambda>p. \<lparr>Id = PrefixListId p, Name = PrefixListName p, Owner = OwnerId p\<rparr>)
       (take 20 last_seen)"

definition sleep :: "nat \<Rightarrow> unit io" where
  "sleep i tr = Some (Inr (), tr @ [Sleep i])"

fun retries ::
  "nat \<Rightarrow> nat \<Rightarrow> nat \<Rightarrow> globals \<Rightarrow> ec2_client \<Rightarrow> string \<Rightarrow> string option
     \<Rightarrow> prefix_list list \<Rightarrow> prefix_list io" where
  "retries 0 attempts i g ec2 prefix_list_id fallback_name last_seen =
     raise_io (PrefixListNotFound attempts (ACCOUNT g) (region_name ec2)
                 prefix_list_id fallback_name (sample last_seen))"
| "retries (Suc n) attempts i g ec2 prefix_list_id fallback_name last_seen =
     bind_io (find_pl ec2 prefix_list_id fallback_name)
       (\<lambda>found. case found of
          Some pl \<Rightarrow>
            if pl \<noteq> empty_dict then return_io pl
            else bind_io (list_all_pls ec2)
                   (\<lambda>seen_now. bind_io (sleep i)
                      (\<lambda>u. retries n attempts (Suc i) g ec2 prefix_list_id fallback_name seen_now))
        | None \<Rightarrow>
            bind_io (list_all_pls ec2)
              (\<lambda>seen_now. bind_io (sleep i)
                 (\<lambda>u. retries n attempts (Suc i) g ec2 prefix_list_id fallback_name seen_now)))"

definition describe_pl_with_retries ::
  "globals \<Rightarrow> ec2_client \<Rightarrow> string \<Rightarrow> string option \<Rightarrow> prefix_list io" where
  "describe_pl_with_retries g ec2 prefix_list_id fallback_name =
     retries 8 8 0 g ec2 prefix_list_id fallback_name []"

section \<open>Entries and updates\<close>

text \<open>\<open>int(x or d)\<close> for an optional integer field.\<close>

definition int_or :: "int option \<Rightarrow> int \<Rightarrow> int" where
  "int_or x d = (case x of None \<Rightarrow> d | Some v \<Rightarrow> if v = 0 then d else v)"

definition str_or :: "string option \<Rightarrow> string \<Rightarrow> string" where
  "str_or x d = (case x of None \<Rightarrow> d | Some s \<Rightarrow> if s = [] then d else s)"

fun add_cidrs :: "entry list \<Rightarrow> string fset \<Rightarrow> string fset" where
  "add_cidrs [] have = have"
| "add_cidrs (e # rest) have =
     (if truthy (Cidr e) then add_cidrs rest (finsert (the (Cidr e)) have)
      else add_cidrs rest have)"

partial_function (option) entries_pages ::
  "ec2_client \<Rightarrow> string \<Rightarrow> string option \<Rightarrow> string fset \<Rightarrow> event list
     \<Rightarrow> ((error + string fset) \<times> event list) option" where
  "entries_pages ec2 prefix_list_id token have tr =
     (case api ec2 tr (GetManagedPrefixListEntries prefix_list_id (keep_truthy token)) of
        Inl e \<Rightarrow>
          Some (Inl (Raised e),
                tr @ [Call (GetManagedPrefixListEntries prefix_list_id (keep_truthy token))])
      | Inr resp \<Rightarrow>
          if truthy (NextToken resp)
          then entries_pages ec2 prefix_list_id (NextToken resp)
                 (add_cidrs (case Entries resp of None \<Rightarrow> [] | Some es \<Rightarrow> es) have)
                 (tr @ [Call (GetManagedPrefixListEntries prefix_list_id (keep_truthy token))])
          else Some (Inr (add_cidrs (case Entries resp of None \<Rightarrow> [] | Some es \<Rightarrow> es) have),
                     tr @ [Call (GetManagedPrefixListEntries prefix_list_id (keep_truthy token))]))"

declare entries_pages.simps [code]

definition get_pl_entries ::
  "globals \<Rightarrow> ec2_client \<Rightarrow> string \<Rightarrow> string option
     \<Rightarrow> (int \<times> string fset \<times> int \<times> string) io" where
  "get_pl_entries g ec2 prefix_list_id fallback_name =
     bind_io (describe_pl_with_retries g ec2 prefix_list_id fallback_name)
       (\<lambda>pl. bind_io (entries_pages ec2 prefix_list_id None {||})
          (\<lambda>have. return_io
             (int_or (Version pl) 1, have, int_or (MaxEntries pl) 0, str_or (OwnerId pl) [])))"

text \<open>
  \<open>_chunks\<close>: the slices \<open>seq[i:i + n]\<close> for \<open>i = 0, n, 2n, ...\<close> below \<open>len(seq)\<close>. It is
  only ever called with \<open>n = MAX_BATCH\<close>; for \<open>n = 0\<close> Python's \<open>range\<close> raises, and the
  model gives no slice.
\<close>

function chunks :: "'a list \<Rightarrow> nat \<Rightarrow> 'a list list" where
  "chunks seq n = (if n = 0 \<or> seq = [] then [] else take n seq # chunks (drop n seq) n)"
  by pat_completeness auto
termination
  by (relation "measure (\<lambda>(seq, n). length seq)") auto

declare chunks.simps [simp del]

text \<open>
  The test on the text of a \<open>ClientError\<close>: \<open>"CurrentVersion" in msg or "version" in
  msg.lower()\<close>. \<open>lower\<close> lowers the ASCII letters and leaves every other byte; the
  characters beyond ASCII that Python lowers to something with an ASCII letter in it are
  the Kelvin sign (to \<open>k\<close>) and the dotted capital I (to \<open>i\<close> and a combining dot), and
  neither can complete the word \<open>version\<close>.
\<close>

definition lower_char :: "char \<Rightarrow> char" where
  "lower_char c =
     (if CHR ''A'' \<le> c \<and> c \<le> CHR ''Z'' then char_of (of_char c + (32 :: nat)) else c)"

definition lower :: "string \<Rightarrow> string" where
  "lower s = map lower_char s"

definition version_conflict :: "string \<Rightarrow> bool" where
  "version_conflict msg = (sublist ''CurrentVersion'' msg \<or> sublist ''version'' (lower msg))"

text \<open>\<open>resp["PrefixList"]["Version"]\<close>, a KeyError when either key is missing.\<close>

definition returned_version :: "response \<Rightarrow> error + int" where
  "returned_version resp =
     (case PrefixList resp of
        None \<Rightarrow> Inl (KeyError ''PrefixList'')
      | Some pl \<Rightarrow> (case Version pl of None \<Rightarrow> Inl (KeyError ''Version'') | Some v \<Rightarrow> Inr v))"

text \<open>
  \<open>_modify\<close>, the closure of \<open>apply_delta\<close>, with the variables it captures as
  arguments. One call; on a \<open>ClientError\<close> whose text mentions the version, the prefix
  list is located again and the call is made once more.
\<close>

definition modify ::
  "globals \<Rightarrow> ec2_client \<Rightarrow> string \<Rightarrow> string option
     \<Rightarrow> entry list option \<Rightarrow> entry list option \<Rightarrow> int \<Rightarrow> int io" where
  "modify g ec2 prefix_list_id fallback_name add_batch rem_batch version_hint tr =
     (let c = ModifyManagedPrefixList prefix_list_id version_hint
                (keep_truthy add_batch) (keep_truthy rem_batch) in
      case api ec2 tr c of
        Inr resp \<Rightarrow> Some (returned_version resp, tr @ [Call c])
      | Inl (ClientError msg) \<Rightarrow>
          if version_conflict msg then
            bind_io (describe_pl_with_retries g ec2 prefix_list_id fallback_name)
              (\<lambda>fresh tr2.
                 let c2 = ModifyManagedPrefixList prefix_list_id
                            (int_or (Version fresh) version_hint)
                            (keep_truthy add_batch) (keep_truthy rem_batch) in
                 case api ec2 tr2 c2 of
                   Inr resp \<Rightarrow> Some (returned_version resp, tr2 @ [Call c2])
                 | Inl e \<Rightarrow> Some (Inl (Raised e), tr2 @ [Call c2]))
              (tr @ [Call c])
          else Some (Inl (Raised (ClientError msg)), tr @ [Call c])
      | Inl (OtherException msg) \<Rightarrow> Some (Inl (Raised (OtherException msg)), tr @ [Call c]))"

text \<open>The \<open>while ai < len(add_batches) or ri < len(rem_batches)\<close> loop.\<close>

function apply_batches ::
  "globals \<Rightarrow> ec2_client \<Rightarrow> string \<Rightarrow> string option
     \<Rightarrow> entry list list \<Rightarrow> entry list list \<Rightarrow> nat \<Rightarrow> nat \<Rightarrow> int \<Rightarrow> int io" where
  "apply_batches g ec2 prefix_list_id fallback_name add_batches rem_batches ai ri version tr =
     (if ai < length add_batches \<or> ri < length rem_batches then
        (case modify g ec2 prefix_list_id fallback_name
                (if ai < length add_batches then Some (add_batches ! ai) else None)
                (if ri < length rem_batches then Some (rem_batches ! ri) else None)
                version tr of
           None \<Rightarrow> None
         | Some (Inl e, tr') \<Rightarrow> Some (Inl e, tr')
         | Some (Inr v, tr') \<Rightarrow>
             apply_batches g ec2 prefix_list_id fallback_name add_batches rem_batches
               (if ai < length add_batches then ai + 1 else ai)
               (if ri < length rem_batches then ri + 1 else ri) v tr')
      else Some (Inr version, tr))"
  by pat_completeness auto
termination
  by (relation "measure (\<lambda>(g, ec2, pid, name, abs, rbs, ai, ri, v, tr).
                   (length abs - ai) + (length rbs - ri))") auto

declare apply_batches.simps [simp del]

text \<open>The delta of lines 252 and 253: two sorted lists.\<close>

definition to_add_of :: "string fset \<Rightarrow> string fset \<Rightarrow> string list" where
  "to_add_of want have = sorted_list_of_fset (want |-| have)"

definition to_remove_of :: "string fset \<Rightarrow> string fset \<Rightarrow> string list" where
  "to_remove_of want have = sorted_list_of_fset (have |-| want)"

definition add_entry :: "string \<Rightarrow> string \<Rightarrow> entry" where
  "add_entry desc c =
     \<lparr>Cidr = Some c,
      Description = Some (take_chars PL_DESCR_TRUNC (if desc = [] then DESCR_DEFAULT else desc))\<rparr>"

definition rem_entry :: "string \<Rightarrow> entry" where
  "rem_entry c = \<lparr>Cidr = Some c, Description = None\<rparr>"

definition apply_delta ::
  "globals \<Rightarrow> ec2_client \<Rightarrow> string \<Rightarrow> string \<Rightarrow> string list \<Rightarrow> string option \<Rightarrow> string
     \<Rightarrow> result io" where
  "apply_delta g ec2 prefix_list_id desc want_list fallback_name account_owner =
     bind_io (get_pl_entries g ec2 prefix_list_id fallback_name)
       (\<lambda>(current_version, have, max_entries, owner).
          if owner \<noteq> [] \<and> owner \<noteq> account_owner then
            return_io
              \<lparr>id_res = prefix_list_id, from_version = current_version,
               to_version = current_version, added = [], removed = [], changed = False,
               remark = Note_foreign_owner owner account_owner\<rparr>
          else if max_entries \<noteq> 0 \<and> int (fcard (fset_of_list want_list)) > max_entries then
            raise_io (DesiredExceedsMaxEntries (fcard (fset_of_list want_list))
                        max_entries prefix_list_id)
          else if to_add_of (fset_of_list want_list) have = []
                  \<and> to_remove_of (fset_of_list want_list) have = [] then
            return_io
              \<lparr>id_res = prefix_list_id, from_version = current_version,
               to_version = current_version, added = [], removed = [], changed = False,
               remark = Summary_up_to_date prefix_list_id (fcard have)\<rparr>
          else
            bind_io
              (apply_batches g ec2 prefix_list_id fallback_name
                 (chunks (map (add_entry desc) (to_add_of (fset_of_list want_list) have))
                    MAX_BATCH)
                 (chunks (map rem_entry (to_remove_of (fset_of_list want_list) have))
                    MAX_BATCH)
                 0 0 current_version)
              (\<lambda>version. return_io
                 \<lparr>id_res = prefix_list_id, from_version = current_version,
                  to_version = version,
                  added = to_add_of (fset_of_list want_list) have,
                  removed = to_remove_of (fset_of_list want_list) have,
                  changed = (to_add_of (fset_of_list want_list) have \<noteq> []
                             \<or> to_remove_of (fset_of_list want_list) have \<noteq> []),
                  remark = Summary_applied prefix_list_id
                             (length (to_add_of (fset_of_list want_list) have))
                             (length (to_remove_of (fset_of_list want_list) have)) version\<rparr>))"

section \<open>The Lambda entry point\<close>





text \<open>The update calls of a history, in order.\<close>

fun is_modify :: "event \<Rightarrow> bool" where
  "is_modify (Call (ModifyManagedPrefixList pid v a r)) = True"
| "is_modify ev = False"

definition modify_calls :: "event list \<Rightarrow> event list" where
  "modify_calls tr = filter is_modify tr"

text \<open>
  Two properties of a computation that the proofs below carry through every function
  that only reads: it adds no update call to the history, and it does not raise the
  capacity error.
\<close>

fun capacity_error :: "error \<Rightarrow> bool" where
  "capacity_error (DesiredExceedsMaxEntries n k p) = True"
| "capacity_error e = False"

definition is_capacity :: "error + 'a \<Rightarrow> bool" where
  "is_capacity r = (case r of Inl e \<Rightarrow> capacity_error e | Inr x \<Rightarrow> False)"

definition quiet :: "'a io \<Rightarrow> bool" where
  "quiet m = (\<forall>tr r tr'. m tr = Some (r, tr') \<longrightarrow>
                modify_calls tr' = modify_calls tr \<and> \<not> is_capacity r)"

section \<open>Providers for the examples\<close>

text \<open>
  A provider with no memory: every describe call shows the one prefix list \<open>pl\<close>, every
  entry read returns \<open>es\<close> on a single page, and every update is accepted and answers
  with the next version.
\<close>

definition demo_client :: "prefix_list \<Rightarrow> entry list \<Rightarrow> ec2_client" where
  "demo_client pl es =
     \<lparr>region_name = ''us-east-1'',
      api = (\<lambda>h c. case c of
          DescribeManagedPrefixLists ids t \<Rightarrow>
            Inr (empty_response\<lparr>ManagedPrefixLists := Some [pl]\<rparr>)
        | DescribePrefixLists t \<Rightarrow> Inr empty_response
        | GetManagedPrefixListEntries p t \<Rightarrow> Inr (empty_response\<lparr>Entries := Some es\<rparr>)
        | ModifyManagedPrefixList p v a r \<Rightarrow>
            Inr (empty_response\<lparr>PrefixList := Some (pl\<lparr>Version := Some (v + 1)\<rparr>)\<rparr>))\<rparr>"

definition pl_demo :: prefix_list where
  "pl_demo =
     empty_dict\<lparr>PrefixListId := Some ''pl-1'', Version := Some 3, MaxEntries := Some 2,
                 OwnerId := Some ''111''\<rparr>"

definition ec2_demo :: ec2_client where
  "ec2_demo = demo_client pl_demo [\<lparr>Cidr = Some ''10.0.0.0/8'', Description = None\<rparr>]"

definition g_demo :: globals where
  "g_demo = \<lparr>ACCOUNT = ''111'', DEFAULT_EC2 = ec2_demo, SESSION_client = (\<lambda>r. ec2_demo)\<rparr>"

text \<open>
  A list without version and capacity; a provider that refuses every call, one that
  shows nothing, one that cannot be reached; an environment with both targets; and a
  provider that rejects every update as stale.
\<close>

definition ec2_bare :: ec2_client where
  "ec2_bare = demo_client (empty_dict\<lparr>PrefixListId := Some ''pl-9''\<rparr>) []"





definition ec2_stale :: ec2_client where
  "ec2_stale =
     \<lparr>region_name = ''us-east-1'',
      api = (\<lambda>h c. case c of
          DescribeManagedPrefixLists ids t \<Rightarrow>
            Inr (empty_response\<lparr>ManagedPrefixLists := Some [pl_demo\<lparr>Version := Some 5\<rparr>]\<rparr>)
        | DescribePrefixLists t \<Rightarrow> Inr empty_response
        | GetManagedPrefixListEntries p t \<Rightarrow> Inr empty_response
        | ModifyManagedPrefixList p v a r \<Rightarrow>
            Inl (ClientError ''The prefix list has the incorrect version number.''))\<rparr>"

section \<open>Describing a run\<close>

text \<open>
  The update calls of a run in which the provider accepts every call at the first
  attempt: call \<open>k\<close> carries the version \<open>ver k\<close> and the \<open>k\<close>-th batch of each list,
  where there is one. \<open>accepts\<close> says that the provider, asked in this order, answers call
  \<open>k\<close> with the version \<open>ver (k + 1)\<close>.
\<close>

definition batch_call ::
  "string \<Rightarrow> entry list list \<Rightarrow> entry list list \<Rightarrow> (nat \<Rightarrow> int) \<Rightarrow> nat \<Rightarrow> call" where
  "batch_call pid A R ver k =
     ModifyManagedPrefixList pid (ver k)
       (keep_truthy (if k < length A then Some (A ! k) else None))
       (keep_truthy (if k < length R then Some (R ! k) else None))"

definition batch_calls ::
  "string \<Rightarrow> entry list list \<Rightarrow> entry list list \<Rightarrow> (nat \<Rightarrow> int) \<Rightarrow> nat \<Rightarrow> event list" where
  "batch_calls pid A R ver n = map (\<lambda>k. Call (batch_call pid A R ver k)) [0..<n]"

definition accepts ::
  "ec2_client \<Rightarrow> event list \<Rightarrow> string \<Rightarrow> entry list list \<Rightarrow> entry list list
     \<Rightarrow> (nat \<Rightarrow> int) \<Rightarrow> bool" where
  "accepts ec2 tr pid A R ver =
     (\<forall>k \<in> {..<max (length A) (length R)}.
        case api ec2 (tr @ batch_calls pid A R ver k) (batch_call pid A R ver k) of
          Inr resp \<Rightarrow> returned_version resp = Inr (ver (Suc k))
        | Inl e \<Rightarrow> False)"







text \<open>The record that the second loop appends for a record with an identifier.\<close>

definition as_common_record :: "prefix_list \<Rightarrow> prefix_list" where
  "as_common_record p = (if truthy (PrefixListId p) then common_record (the (PrefixListId p)) p else p)"

text \<open>A linear test that a list of strings is strictly increasing.\<close>

fun ascending :: "string list \<Rightarrow> bool" where
  "ascending (x # y # zs) = (x < y \<and> ascending (y # zs))"
| "ascending zs = True"

text \<open>
  Eighty-five address ranges in increasing order, and a pair of discovery answers that
  overlap: the first operation shows \<open>pl-1\<close> in full, the second shows a thin record of
  \<open>pl-1\<close> and a list of the provider's own.
\<close>

definition cf85 :: "string list" where
  "cf85 =
     [''10.0.0.0/16'', ''10.1.0.0/16'', ''10.10.0.0/16'', ''10.11.0.0/16'', ''10.12.0.0/16'',
      ''10.13.0.0/16'', ''10.14.0.0/16'', ''10.15.0.0/16'', ''10.16.0.0/16'', ''10.17.0.0/16'',
      ''10.18.0.0/16'', ''10.19.0.0/16'', ''10.2.0.0/16'', ''10.20.0.0/16'', ''10.21.0.0/16'',
      ''10.22.0.0/16'', ''10.23.0.0/16'', ''10.24.0.0/16'', ''10.25.0.0/16'', ''10.26.0.0/16'',
      ''10.27.0.0/16'', ''10.28.0.0/16'', ''10.29.0.0/16'', ''10.3.0.0/16'', ''10.30.0.0/16'',
      ''10.31.0.0/16'', ''10.32.0.0/16'', ''10.33.0.0/16'', ''10.34.0.0/16'', ''10.35.0.0/16'',
      ''10.36.0.0/16'', ''10.37.0.0/16'', ''10.38.0.0/16'', ''10.39.0.0/16'', ''10.4.0.0/16'',
      ''10.40.0.0/16'', ''10.41.0.0/16'', ''10.42.0.0/16'', ''10.43.0.0/16'', ''10.44.0.0/16'',
      ''10.45.0.0/16'', ''10.46.0.0/16'', ''10.47.0.0/16'', ''10.48.0.0/16'', ''10.49.0.0/16'',
      ''10.5.0.0/16'', ''10.50.0.0/16'', ''10.51.0.0/16'', ''10.52.0.0/16'', ''10.53.0.0/16'',
      ''10.54.0.0/16'', ''10.55.0.0/16'', ''10.56.0.0/16'', ''10.57.0.0/16'', ''10.58.0.0/16'',
      ''10.59.0.0/16'', ''10.6.0.0/16'', ''10.60.0.0/16'', ''10.61.0.0/16'', ''10.62.0.0/16'',
      ''10.63.0.0/16'', ''10.64.0.0/16'', ''10.65.0.0/16'', ''10.66.0.0/16'', ''10.67.0.0/16'',
      ''10.68.0.0/16'', ''10.69.0.0/16'', ''10.7.0.0/16'', ''10.70.0.0/16'', ''10.71.0.0/16'',
      ''10.72.0.0/16'', ''10.73.0.0/16'', ''10.74.0.0/16'', ''10.75.0.0/16'', ''10.76.0.0/16'',
      ''10.77.0.0/16'', ''10.78.0.0/16'', ''10.79.0.0/16'', ''10.8.0.0/16'', ''10.80.0.0/16'',
      ''10.81.0.0/16'', ''10.82.0.0/16'', ''10.83.0.0/16'', ''10.84.0.0/16'', ''10.9.0.0/16'']"





section \<open>Sequencing and the frame of the reading functions\<close>

lemma bind_io_Inr: "m tr = Some (Inr x, tr') \<Longrightarrow> bind_io m f tr = f x tr'"
  by (simp add: bind_io_def)

lemma bind_io_Inl: "m tr = Some (Inl e, tr') \<Longrightarrow> bind_io m f tr = Some (Inl e, tr')"
  by (simp add: bind_io_def)

lemma bind_io_None: "m tr = None \<Longrightarrow> bind_io m f tr = None"
  by (simp add: bind_io_def)

lemma bind_io_Some:
  "bind_io m f tr = Some (r, tr2) \<Longrightarrow>
     (\<exists>e. m tr = Some (Inl e, tr2) \<and> r = Inl e)
     \<or> (\<exists>x tr1. m tr = Some (Inr x, tr1) \<and> f x tr1 = Some (r, tr2))"
  by (auto simp: bind_io_def split: option.splits sum.splits prod.splits)

lemma is_capacity_simps [simp]:
  "is_capacity (Inl e) = capacity_error e" "is_capacity (Inr x) = False"
  by (simp_all add: is_capacity_def)

lemma quietD:
  "quiet m \<Longrightarrow> m tr = Some (r, tr') \<Longrightarrow> modify_calls tr' = modify_calls tr \<and> \<not> is_capacity r"
  by (simp add: quiet_def)

lemma quiet_return [simp]: "quiet (return_io x)"
  by (simp add: quiet_def return_io_def)

lemma quiet_raise: "\<not> capacity_error e \<Longrightarrow> quiet (raise_io e)"
  by (simp add: quiet_def raise_io_def)

lemma quiet_sleep [simp]: "quiet (sleep i)"
  by (simp add: quiet_def sleep_def modify_calls_def)

lemma quiet_bind:
  assumes "quiet m" and "\<And>x. quiet (f x)"
  shows "quiet (bind_io m f)"
  unfolding quiet_def
proof (intro allI impI)
  fix tr r tr2
  assume "bind_io m f tr = Some (r, tr2)"
  from bind_io_Some [OF this] show "modify_calls tr2 = modify_calls tr \<and> \<not> is_capacity r"
  proof
    assume "\<exists>e. m tr = Some (Inl e, tr2) \<and> r = Inl e"
    with assms(1) show ?thesis by (auto dest: quietD)
  next
    assume "\<exists>x tr1. m tr = Some (Inr x, tr1) \<and> f x tr1 = Some (r, tr2)"
    then obtain x tr1 where a: "m tr = Some (Inr x, tr1)" and b: "f x tr1 = Some (r, tr2)"
      by blast
    from quietD [OF assms(1) a] quietD [OF assms(2) b] show ?thesis by simp
  qed
qed

lemma describe_managed_pls_frame:
  "describe_managed_pls ec2 ids t tr = (r, tr') \<Longrightarrow>
     modify_calls tr' = modify_calls tr \<and> \<not> is_capacity r"
  by (auto simp: describe_managed_pls_def Let_def modify_calls_def split: sum.splits exn.splits)

lemma describe_prefix_pls_frame:
  "describe_prefix_pls ec2 t tr = (r, tr') \<Longrightarrow>
     modify_calls tr' = modify_calls tr \<and> \<not> is_capacity r"
  by (auto simp: describe_prefix_pls_def Let_def modify_calls_def split: sum.splits exn.splits)

text \<open>
  The pagination loops are defined as least fixed points, so what holds of every result
  they return is proved by fixed-point induction over their bodies.
\<close>

lemma managed_pages_frame:
  assumes "managed_pages ec2 token acc tr = Some y"
  shows "modify_calls (snd y) = modify_calls tr \<and> \<not> is_capacity (fst y)"
proof (rule managed_pages.raw_induct
         [where P = "\<lambda>ec2 token acc tr y.
            modify_calls (snd y) = modify_calls tr \<and> \<not> is_capacity (fst y)", OF _ assms],
       goal_cases)
  case (1 f ec2 token acc tr y)
  obtain r tr1 where d: "describe_managed_pls ec2 None token tr = (r, tr1)"
    by (cases "describe_managed_pls ec2 None token tr")
  note fr = describe_managed_pls_frame [OF d]
  show ?case
  proof (cases r)
    case (Inl e)
    with 1(2) d fr show ?thesis by auto
  next
    case (Inr resp)
    show ?thesis
    proof (cases "truthy (NextToken resp)")
      case True
      with 1(2) d Inr
      have "f ec2 (NextToken resp) (merge_managed (pls resp) acc) tr1 = Some y"
        by simp
      from 1(1) [OF this] fr show ?thesis by simp
    next
      case False
      with 1(2) d Inr fr show ?thesis by auto
    qed
  qed
qed

lemma prefix_pages_frame:
  assumes "prefix_pages ec2 token acc tr = Some y"
  shows "modify_calls (snd y) = modify_calls tr \<and> \<not> is_capacity (fst y)"
proof (rule prefix_pages.raw_induct
         [where P = "\<lambda>ec2 token acc tr y.
            modify_calls (snd y) = modify_calls tr \<and> \<not> is_capacity (fst y)", OF _ assms],
       goal_cases)
  case (1 f ec2 token acc tr y)
  obtain r tr1 where d: "describe_prefix_pls ec2 token tr = (r, tr1)"
    by (cases "describe_prefix_pls ec2 token tr")
  note fr = describe_prefix_pls_frame [OF d]
  show ?case
  proof (cases r)
    case (Inl e)
    with 1(2) d fr show ?thesis by auto
  next
    case (Inr resp)
    show ?thesis
    proof (cases "truthy (NextToken resp)")
      case True
      with 1(2) d Inr
      have "f ec2 (NextToken resp) (merge_prefix (pls resp) acc) tr1 = Some y"
        by simp
      from 1(1) [OF this] fr show ?thesis by simp
    next
      case False
      with 1(2) d Inr fr show ?thesis by auto
    qed
  qed
qed

lemma entries_pages_frame:
  assumes "entries_pages ec2 pid token hv tr = Some y"
  shows "modify_calls (snd y) = modify_calls tr \<and> \<not> is_capacity (fst y)"
proof (rule entries_pages.raw_induct
         [where P = "\<lambda>ec2 pid token hv tr y.
            modify_calls (snd y) = modify_calls tr \<and> \<not> is_capacity (fst y)", OF _ assms],
       goal_cases)
  case (1 f ec2 pid token hv tr y)
  let ?c = "GetManagedPrefixListEntries pid (keep_truthy token)"
  have fr: "modify_calls (tr @ [Call ?c]) = modify_calls tr"
    by (simp add: modify_calls_def)
  show ?case
  proof (cases "api ec2 tr ?c")
    case (Inl e)
    with 1(2) fr show ?thesis by auto
  next
    case (Inr resp)
    show ?thesis
    proof (cases "truthy (NextToken resp)")
      case True
      with 1(2) Inr
      have "f ec2 pid (NextToken resp)
              (add_cidrs (case Entries resp of None \<Rightarrow> [] | Some es \<Rightarrow> es) hv)
              (tr @ [Call ?c]) = Some y"
        by simp
      from 1(1) [OF this] fr show ?thesis by simp
    next
      case False
      with 1(2) Inr fr show ?thesis by auto
    qed
  qed
qed

lemma quiet_managed_pages [simp]: "quiet (managed_pages ec2 token acc)"
  unfolding quiet_def by (auto dest: managed_pages_frame)

lemma quiet_prefix_pages [simp]: "quiet (prefix_pages ec2 token acc)"
  unfolding quiet_def by (auto dest: prefix_pages_frame)

lemma quiet_entries_pages [simp]: "quiet (entries_pages ec2 pid token hv)"
  unfolding quiet_def by (auto dest: entries_pages_frame)

lemma quiet_list_all_pls [simp]: "quiet (list_all_pls ec2)"
  unfolding list_all_pls_def
  by (intro quiet_bind quiet_managed_pages quiet_prefix_pages) (simp split: prod.splits)

lemma quiet_find_direct [simp]: "quiet (find_direct ec2 pid)"
  unfolding quiet_def find_direct_def
  by (auto split: if_splits prod.splits sum.splits dest: describe_managed_pls_frame)

lemma quiet_find_pl [simp]: "quiet (find_pl ec2 pid name)"
  unfolding find_pl_def
  by (intro quiet_bind quiet_find_direct)
     (auto split: option.splits intro!: quiet_bind)

lemma quiet_retries [simp]: "quiet (retries n attempts i g ec2 pid name last_seen)"
proof (induction n arbitrary: i last_seen)
  case 0
  show ?case by (simp add: quiet_raise)
next
  case (Suc n)
  show ?case
    by (simp, intro quiet_bind quiet_find_pl)
       (auto split: option.splits intro!: quiet_bind Suc)
qed

lemma quiet_describe_pl_with_retries [simp]: "quiet (describe_pl_with_retries g ec2 pid name)"
  by (simp add: describe_pl_with_retries_def)

lemma quiet_get_pl_entries [simp]: "quiet (get_pl_entries g ec2 pid name)"
  unfolding get_pl_entries_def
  by (intro quiet_bind) simp_all

lemma get_pl_entries_frame:
  "get_pl_entries g ec2 pid name tr = Some (r, tr') \<Longrightarrow> modify_calls tr' = modify_calls tr"
  using quietD [OF quiet_get_pl_entries] by blast

lemma demo_run:
  "get_pl_entries g_demo ec2_demo ''pl-1'' None [] =
     Some (Inr (3, {|''10.0.0.0/8''|}, 2, ''111''),
           [Call (DescribeManagedPrefixLists (Some [''pl-1'']) None),
            Call (GetManagedPrefixListEntries ''pl-1'' None)])"
  by code_simp

section \<open>The delta\<close>

lemma sorted_list_of_fset_props:
  "sorted (sorted_list_of_fset S)" "distinct (sorted_list_of_fset S)"
  by (simp_all add: sorted_list_of_fset.rep_eq)

lemma sorted_list_of_fset_Nil: "sorted_list_of_fset S = [] \<longleftrightarrow> S = {||}"
proof
  assume "sorted_list_of_fset S = []"
  then have "fset_of_list (sorted_list_of_fset S) = fset_of_list []" by simp
  then show "S = {||}" by simp
next
  assume "S = {||}"
  then show "sorted_list_of_fset S = []" by (simp add: sorted_list_of_fset.rep_eq)
qed

lemma delta_empty_iff:
  "to_add_of W H = [] \<and> to_remove_of W H = [] \<longleftrightarrow> W = H"
  unfolding to_add_of_def to_remove_of_def sorted_list_of_fset_Nil by blast

text \<open>
  C7. For every desired set \<open>D\<close> and current set \<open>C\<close>, the delta that \<open>apply_delta\<close>
  computes is \<open>to_add = sorted(D - C)\<close> and \<open>to_remove = sorted(C - D)\<close>: as sets the two
  lists are the two differences, each list is sorted and free of duplicates, the lists
  share no entry, nothing to add is already in \<open>C\<close>, and everything to remove is in \<open>C\<close>.
\<close>

theorem delta_minimal:
  "set (to_add_of D C) = fset D - fset C
   \<and> set (to_remove_of D C) = fset C - fset D
   \<and> sorted (to_add_of D C) \<and> distinct (to_add_of D C)
   \<and> sorted (to_remove_of D C) \<and> distinct (to_remove_of D C)
   \<and> set (to_add_of D C) \<inter> set (to_remove_of D C) = {}
   \<and> set (to_add_of D C) \<inter> fset C = {}
   \<and> set (to_remove_of D C) \<subseteq> fset C"
  by (auto simp: to_add_of_def to_remove_of_def sorted_list_of_fset_props)

section \<open>Ownership, capacity and the no-op\<close>

text \<open>
  C2. When the entry reader reports an owner that is present and is not the caller's
  account, \<open>apply_delta\<close> returns at once: the result has \<open>changed = False\<close> and the
  foreign-owner note, and the history is the one the entry reader left. So nothing is
  read after the reader's own calls, which fetched the owner together with the entries,
  and no update call is issued.
\<close>

theorem foreign_owner_skipped:
  assumes "get_pl_entries g ec2 pid name tr = Some (Inr (v, hv, m, owner), tr1)"
    and "owner \<noteq> []" and "owner \<noteq> acct"
  shows "apply_delta g ec2 pid desc want_list name acct tr =
           Some (Inr \<lparr>id_res = pid, from_version = v, to_version = v, added = [],
                      removed = [], changed = False,
                      remark = Note_foreign_owner owner acct\<rparr>, tr1)
         \<and> modify_calls tr1 = modify_calls tr"
proof -
  have "modify_calls tr1 = modify_calls tr"
    using assms(1) by (rule get_pl_entries_frame)
  moreover from assms
  have "apply_delta g ec2 pid desc want_list name acct tr =
           Some (Inr \<lparr>id_res = pid, from_version = v, to_version = v, added = [],
                      removed = [], changed = False,
                      remark = Note_foreign_owner owner acct\<rparr>, tr1)"
    by (simp add: apply_delta_def bind_io_Inr return_io_def)
  ultimately show ?thesis by simp
qed

theorem foreign_owner_skipped_witness:
  "get_pl_entries g_demo ec2_demo ''pl-1'' None [] =
     Some (Inr (3, {|''10.0.0.0/8''|}, 2, ''111''),
           [Call (DescribeManagedPrefixLists (Some [''pl-1'']) None),
            Call (GetManagedPrefixListEntries ''pl-1'' None)])
   \<and> ''111'' \<noteq> [] \<and> ''111'' \<noteq> ''222''
   \<and> apply_delta g_demo ec2_demo ''pl-1'' [] [''1.1.1.0/24''] None ''222'' [] =
       Some (Inr \<lparr>id_res = ''pl-1'', from_version = 3, to_version = 3, added = [],
                  removed = [], changed = False,
                  remark = Note_foreign_owner ''111'' ''222''\<rparr>,
             [Call (DescribeManagedPrefixLists (Some [''pl-1'']) None),
              Call (GetManagedPrefixListEntries ''pl-1'' None)])
   \<and> modify_calls [Call (DescribeManagedPrefixLists (Some [''pl-1'']) None),
                    Call (GetManagedPrefixListEntries ''pl-1'' None)] = modify_calls []"
proof -
  have h1: "''111'' \<noteq> []" by simp
  have h2: "''111'' \<noteq> ''222''" by simp
  show ?thesis
    using demo_run h1 h2
      foreign_owner_skipped [OF demo_run h1 h2, of "[]" "[''1.1.1.0/24'']"]
    by simp
qed

text \<open>
  C5. For an owned prefix list whose \<open>MaxEntries\<close> is positive, a desired set with more
  members than that makes \<open>apply_delta\<close> raise the capacity error, which carries the two
  counts and the list's id; the history is the one the entry reader left, so no update
  call is issued.
\<close>

theorem capacity_exceeded:
  assumes "get_pl_entries g ec2 pid name tr = Some (Inr (v, hv, m, owner), tr1)"
    and "owner = [] \<or> owner = acct"
    and "0 < m"
    and "m < int (fcard (fset_of_list want_list))"
  shows "apply_delta g ec2 pid desc want_list name acct tr =
           Some (Inl (DesiredExceedsMaxEntries (fcard (fset_of_list want_list)) m pid), tr1)
         \<and> modify_calls tr1 = modify_calls tr"
proof -
  have "modify_calls tr1 = modify_calls tr"
    using assms(1) by (rule get_pl_entries_frame)
  moreover from assms
  have "apply_delta g ec2 pid desc want_list name acct tr =
           Some (Inl (DesiredExceedsMaxEntries (fcard (fset_of_list want_list)) m pid), tr1)"
    by (auto simp add: apply_delta_def bind_io_Inr raise_io_def)
  ultimately show ?thesis by simp
qed

theorem capacity_exceeded_witness:
  "get_pl_entries g_demo ec2_demo ''pl-1'' None [] =
     Some (Inr (3, {|''10.0.0.0/8''|}, 2, ''111''),
           [Call (DescribeManagedPrefixLists (Some [''pl-1'']) None),
            Call (GetManagedPrefixListEntries ''pl-1'' None)])
   \<and> (''111'' = [] \<or> ''111'' = ''111'')
   \<and> (0 :: int) < 2
   \<and> 2 < int (fcard (fset_of_list [''1.1.1.0/24'', ''2.2.2.0/24'', ''3.3.3.0/24'']))
   \<and> apply_delta g_demo ec2_demo ''pl-1'' []
        [''1.1.1.0/24'', ''2.2.2.0/24'', ''3.3.3.0/24''] None ''111'' [] =
       Some (Inl (DesiredExceedsMaxEntries 3 2 ''pl-1''),
             [Call (DescribeManagedPrefixLists (Some [''pl-1'']) None),
              Call (GetManagedPrefixListEntries ''pl-1'' None)])
   \<and> modify_calls [Call (DescribeManagedPrefixLists (Some [''pl-1'']) None),
                    Call (GetManagedPrefixListEntries ''pl-1'' None)] = modify_calls []"
proof -
  have h1: "''111'' = [] \<or> ''111'' = ''111''" by simp
  have h2: "(0 :: int) < 2" by simp
  have c: "fcard {|''1.1.1.0/24'', ''2.2.2.0/24'', ''3.3.3.0/24''|} = 3"
    by code_simp
  have h3: "2 < int (fcard (fset_of_list [''1.1.1.0/24'', ''2.2.2.0/24'', ''3.3.3.0/24'']))"
    by (simp add: c)
  show ?thesis
    using demo_run h1 h2 h3 capacity_exceeded [OF demo_run h1 h2 h3, of "[]"]
    by (simp add: c)
qed

text \<open>
  C8. When the desired set is the set the entry reader found (a set that fits the
  list's \<open>MaxEntries\<close>, as the provider guarantees of every list it hosts), both lists of
  the delta are empty, no update call is issued, and \<open>apply_delta\<close> returns a result with
  \<open>changed = False\<close> whose \<open>from_version\<close> and \<open>to_version\<close> are both the version read.
\<close>

theorem up_to_date_is_noop:
  assumes "get_pl_entries g ec2 pid name tr = Some (Inr (v, hv, m, owner), tr1)"
    and "fset_of_list want_list = hv"
    and "m = 0 \<or> int (fcard hv) \<le> m"
  shows "to_add_of (fset_of_list want_list) hv = []
         \<and> to_remove_of (fset_of_list want_list) hv = []
         \<and> apply_delta g ec2 pid desc want_list name acct tr =
             Some (Inr \<lparr>id_res = pid, from_version = v, to_version = v, added = [],
                        removed = [], changed = False,
                        remark = (if owner \<noteq> [] \<and> owner \<noteq> acct
                                  then Note_foreign_owner owner acct
                                  else Summary_up_to_date pid (fcard hv))\<rparr>, tr1)
         \<and> modify_calls tr1 = modify_calls tr"
proof -
  from assms(2) have d: "to_add_of (fset_of_list want_list) hv = []
                         \<and> to_remove_of (fset_of_list want_list) hv = []"
    by (simp add: delta_empty_iff)
  have "modify_calls tr1 = modify_calls tr"
    using assms(1) by (rule get_pl_entries_frame)
  moreover from assms d
  have "apply_delta g ec2 pid desc want_list name acct tr =
             Some (Inr \<lparr>id_res = pid, from_version = v, to_version = v, added = [],
                        removed = [], changed = False,
                        remark = (if owner \<noteq> [] \<and> owner \<noteq> acct
                                  then Note_foreign_owner owner acct
                                  else Summary_up_to_date pid (fcard hv))\<rparr>, tr1)"
    by (auto simp add: apply_delta_def bind_io_Inr return_io_def)
  ultimately show ?thesis using d by simp
qed

theorem up_to_date_is_noop_witness:
  "get_pl_entries g_demo ec2_demo ''pl-1'' None [] =
     Some (Inr (3, {|''10.0.0.0/8''|}, 2, ''111''),
           [Call (DescribeManagedPrefixLists (Some [''pl-1'']) None),
            Call (GetManagedPrefixListEntries ''pl-1'' None)])
   \<and> fset_of_list [''10.0.0.0/8''] = {|''10.0.0.0/8''|}
   \<and> ((2 :: int) = 0 \<or> int (fcard {|''10.0.0.0/8''|}) \<le> 2)
   \<and> to_add_of (fset_of_list [''10.0.0.0/8'']) {|''10.0.0.0/8''|} = []
   \<and> to_remove_of (fset_of_list [''10.0.0.0/8'']) {|''10.0.0.0/8''|} = []
   \<and> apply_delta g_demo ec2_demo ''pl-1'' [] [''10.0.0.0/8''] None ''111'' [] =
       Some (Inr \<lparr>id_res = ''pl-1'', from_version = 3, to_version = 3, added = [],
                  removed = [], changed = False,
                  remark = Summary_up_to_date ''pl-1'' 1\<rparr>,
             [Call (DescribeManagedPrefixLists (Some [''pl-1'']) None),
              Call (GetManagedPrefixListEntries ''pl-1'' None)])"
proof -
  have h1: "fset_of_list [''10.0.0.0/8''] = {|''10.0.0.0/8''|}" by simp
  have c: "fcard {|''10.0.0.0/8''|} = 1" by code_simp
  have h2: "(2 :: int) = 0 \<or> int (fcard {|''10.0.0.0/8''|}) \<le> 2" by (simp add: c)
  show ?thesis
    using demo_run h1 h2 up_to_date_is_noop [OF demo_run h1 h2, of "[]" "''111''"]
    by (simp add: c)
qed

section \<open>The update loop never raises the capacity error\<close>

lemma returned_version_no_capacity [simp]: "\<not> is_capacity (returned_version resp)"
  by (simp add: returned_version_def split: option.splits)

lemma describe_pl_with_retries_frame:
  "describe_pl_with_retries g ec2 pid name tr = Some (r, tr') \<Longrightarrow>
     modify_calls tr' = modify_calls tr \<and> \<not> is_capacity r"
  using quiet_describe_pl_with_retries by (rule quietD)

lemma modify_unfold_conflict:
  assumes "api ec2 tr (ModifyManagedPrefixList pid vh (keep_truthy a) (keep_truthy r))
             = Inl (ClientError msg)"
    and "version_conflict msg"
    and "describe_pl_with_retries g ec2 pid name
           (tr @ [Call (ModifyManagedPrefixList pid vh (keep_truthy a) (keep_truthy r))])
           = Some (Inr fresh, tr2)"
  shows "modify g ec2 pid name a r vh tr =
           Some (case api ec2 tr2 (ModifyManagedPrefixList pid (int_or (Version fresh) vh)
                                     (keep_truthy a) (keep_truthy r)) of
                   Inr resp \<Rightarrow> returned_version resp
                 | Inl e \<Rightarrow> Inl (Raised e),
                 tr2 @ [Call (ModifyManagedPrefixList pid (int_or (Version fresh) vh)
                                (keep_truthy a) (keep_truthy r))])"
  using assms by (simp add: modify_def Let_def bind_io_Inr split: sum.splits)

lemma modify_unfold_lost:
  assumes "api ec2 tr (ModifyManagedPrefixList pid vh (keep_truthy a) (keep_truthy r))
             = Inl (ClientError msg)"
    and "version_conflict msg"
    and "describe_pl_with_retries g ec2 pid name
           (tr @ [Call (ModifyManagedPrefixList pid vh (keep_truthy a) (keep_truthy r))])
           = Some (Inl e, tr2)"
  shows "modify g ec2 pid name a r vh tr = Some (Inl e, tr2)"
  using assms by (simp add: modify_def Let_def bind_io_Inl)

lemma modify_unfold_hang:
  assumes "api ec2 tr (ModifyManagedPrefixList pid vh (keep_truthy a) (keep_truthy r))
             = Inl (ClientError msg)"
    and "version_conflict msg"
    and "describe_pl_with_retries g ec2 pid name
           (tr @ [Call (ModifyManagedPrefixList pid vh (keep_truthy a) (keep_truthy r))])
           = None"
  shows "modify g ec2 pid name a r vh tr = None"
  using assms by (simp add: modify_def Let_def bind_io_None)

lemma modify_no_capacity:
  assumes "modify g ec2 pid name a r vh tr = Some (res, tr')"
  shows "\<not> is_capacity res"
proof -
  let ?c = "ModifyManagedPrefixList pid vh (keep_truthy a) (keep_truthy r)"
  show ?thesis
  proof (cases "api ec2 tr ?c")
    case (Inr resp)
    with assms show ?thesis by (auto simp: modify_def)
  next
    case (Inl e)
    show ?thesis
    proof (cases e)
      case (OtherException msg)
      with assms Inl show ?thesis by (auto simp: modify_def)
    next
      case (ClientError msg)
      show ?thesis
      proof (cases "version_conflict msg")
        case False
        with assms Inl ClientError show ?thesis by (auto simp: modify_def)
      next
        case True
        note api1 = Inl [unfolded ClientError]
        show ?thesis
        proof (cases "describe_pl_with_retries g ec2 pid name (tr @ [Call ?c])")
          case None
          from modify_unfold_hang [OF api1 True None] assms show ?thesis by simp
        next
          case (Some y)
          obtain r1 tr2 where y: "y = (r1, tr2)" by (cases y)
          show ?thesis
          proof (cases r1)
            case (Inl e1)
            from describe_pl_with_retries_frame [OF Some [unfolded y Inl]]
            have "\<not> capacity_error e1" by simp
            with modify_unfold_lost [OF api1 True Some [unfolded y Inl]] assms
            show ?thesis by simp
          next
            case (Inr fresh)
            from modify_unfold_conflict [OF api1 True Some [unfolded y Inr]] assms
            show ?thesis by (auto split: sum.splits)
          qed
        qed
      qed
    qed
  qed
qed

lemma apply_batches_done:
  "\<not> (ai < length adds \<or> ri < length rems) \<Longrightarrow>
     apply_batches g ec2 pid name adds rems ai ri v tr = Some (Inr v, tr)"
  by (subst apply_batches.simps) simp

lemma apply_batches_step:
  "ai < length adds \<or> ri < length rems \<Longrightarrow>
     apply_batches g ec2 pid name adds rems ai ri v tr =
       (case modify g ec2 pid name
                (if ai < length adds then Some (adds ! ai) else None)
                (if ri < length rems then Some (rems ! ri) else None) v tr of
           None \<Rightarrow> None
         | Some (Inl e, tr') \<Rightarrow> Some (Inl e, tr')
         | Some (Inr v', tr') \<Rightarrow>
             apply_batches g ec2 pid name adds rems
               (if ai < length adds then ai + 1 else ai)
               (if ri < length rems then ri + 1 else ri) v' tr')"
  by (subst apply_batches.simps) simp

lemma apply_batches_no_capacity:
  "apply_batches g ec2 pid name adds rems ai ri v tr = Some (res, tr') \<Longrightarrow> \<not> is_capacity res"
proof (induction g ec2 pid name adds rems ai ri v tr rule: apply_batches.induct)
  case (1 g ec2 pid name adds rems ai ri v tr)
  show ?case
  proof (cases "ai < length adds \<or> ri < length rems")
    case False
    with 1(2) show ?thesis by (auto simp: apply_batches_done)
  next
    case True
    let ?m = "modify g ec2 pid name
                (if ai < length adds then Some (adds ! ai) else None)
                (if ri < length rems then Some (rems ! ri) else None) v tr"
    note st = 1(2) [unfolded apply_batches_step [OF True]]
    show ?thesis
    proof (cases ?m)
      case None
      with st show ?thesis by simp
    next
      case (Some y)
      obtain r1 tr1 where y: "y = (r1, tr1)" by (cases y)
      show ?thesis
      proof (cases r1)
        case (Inl e)
        from Some y Inl have "\<not> capacity_error e"
          by (auto dest: modify_no_capacity)
        with st Some y Inl show ?thesis by auto
      next
        case (Inr v1)
        from st Some y Inr
        have "apply_batches g ec2 pid name adds rems
                (if ai < length adds then ai + 1 else ai)
                (if ri < length rems then ri + 1 else ri) v1 tr1 = Some (res, tr')"
          by simp
        from 1(1) [OF True Some [unfolded y Inr] refl refl this] show ?thesis .
      qed
    qed
  qed
qed

lemma apply_delta_no_capacity:
  assumes rd: "get_pl_entries g ec2 pid name tr = Some (Inr (v, hv, 0, owner), tr2)"
    and run: "apply_delta g ec2 pid desc want_list name acct tr = Some (res, tr3)"
  shows "\<not> is_capacity res"
proof (cases "owner \<noteq> [] \<and> owner \<noteq> acct")
  case True
  with rd run show ?thesis
    by (auto simp: apply_delta_def bind_io_Inr return_io_def)
next
  case False
  note owned = this
  show ?thesis
  proof (cases "to_add_of (fset_of_list want_list) hv = []
                \<and> to_remove_of (fset_of_list want_list) hv = []")
    case True
    with rd run owned show ?thesis
      by (auto simp: apply_delta_def bind_io_Inr return_io_def)
  next
    case False
    let ?b = "apply_batches g ec2 pid name
                 (chunks (map (add_entry desc) (to_add_of (fset_of_list want_list) hv))
                    MAX_BATCH)
                 (chunks (map rem_entry (to_remove_of (fset_of_list want_list) hv))
                    MAX_BATCH)
                 0 0 v"
    from rd run owned False obtain f where
      "bind_io ?b (\<lambda>version. return_io (f version)) tr2 = Some (res, tr3)"
      by (auto simp: apply_delta_def bind_io_Inr)
    from bind_io_Some [OF this] show ?thesis
      by (auto simp: return_io_def dest: apply_batches_no_capacity)
  qed
qed

text \<open>
  C10. When the located record has no \<open>Version\<close> (the key is absent or holds \<open>None\<close>) the
  entry reader reports version 1, and when it has no \<open>MaxEntries\<close>, or \<open>MaxEntries\<close> is 0,
  the reader reports 0 for it. With 0 the capacity test of \<open>apply_delta\<close> is not taken:
  whatever the desired list, \<open>apply_delta\<close> does not raise the capacity error.
\<close>

theorem absent_version_and_capacity:
  assumes loc: "describe_pl_with_retries g ec2 pid name tr = Some (Inr pl, tr1)"
    and rd: "get_pl_entries g ec2 pid name tr = Some (Inr (v, hv, m, owner), tr2)"
  shows "(Version pl = None \<longrightarrow> v = 1)
         \<and> (MaxEntries pl = None \<or> MaxEntries pl = Some 0 \<longrightarrow> m = 0)
         \<and> (m = 0 \<longrightarrow>
              (\<forall>desc want_list acct res tr3.
                 apply_delta g ec2 pid desc want_list name acct tr = Some (res, tr3)
                 \<longrightarrow> \<not> is_capacity res))"
proof -
  from rd loc have
    "bind_io (entries_pages ec2 pid None {||})
       (\<lambda>hv. return_io (int_or (Version pl) 1, hv, int_or (MaxEntries pl) 0,
                         str_or (OwnerId pl) [])) tr1
     = Some (Inr (v, hv, m, owner), tr2)"
    by (simp add: get_pl_entries_def bind_io_Inr)
  from bind_io_Some [OF this]
  have vm: "v = int_or (Version pl) 1 \<and> m = int_or (MaxEntries pl) 0"
    by (auto simp: return_io_def)
  then have "Version pl = None \<longrightarrow> v = 1"
    and "MaxEntries pl = None \<or> MaxEntries pl = Some 0 \<longrightarrow> m = 0"
    by (auto simp: int_or_def)
  moreover have "m = 0 \<longrightarrow>
              (\<forall>desc want_list acct res tr3.
                 apply_delta g ec2 pid desc want_list name acct tr = Some (res, tr3)
                 \<longrightarrow> \<not> is_capacity res)"
    using rd by (auto dest: apply_delta_no_capacity)
  ultimately show ?thesis by simp
qed

lemma bare_locate:
  "describe_pl_with_retries g_demo ec2_bare ''pl-9'' None [] =
     Some (Inr (empty_dict\<lparr>PrefixListId := Some ''pl-9''\<rparr>),
           [Call (DescribeManagedPrefixLists (Some [''pl-9'']) None)])"
  by code_simp

lemma bare_read:
  "get_pl_entries g_demo ec2_bare ''pl-9'' None [] =
     Some (Inr (1, {||}, 0, []),
           [Call (DescribeManagedPrefixLists (Some [''pl-9'']) None),
            Call (GetManagedPrefixListEntries ''pl-9'' None)])"
  by code_simp

lemma bare_run:
  "apply_delta g_demo ec2_bare ''pl-9'' [] [''1.1.1.0/24'', ''2.2.2.0/24'', ''3.3.3.0/24'']
     None ''111'' [] =
     Some (Inr \<lparr>id_res = ''pl-9'', from_version = 1, to_version = 2,
                added = [''1.1.1.0/24'', ''2.2.2.0/24'', ''3.3.3.0/24''], removed = [],
                changed = True, remark = Summary_applied ''pl-9'' 3 0 2\<rparr>,
           [Call (DescribeManagedPrefixLists (Some [''pl-9'']) None),
            Call (GetManagedPrefixListEntries ''pl-9'' None),
            Call (ModifyManagedPrefixList ''pl-9'' 1
                    (Some [\<lparr>Cidr = Some ''1.1.1.0/24'', Description = Some ''Cloudflare IP''\<rparr>,
                           \<lparr>Cidr = Some ''2.2.2.0/24'', Description = Some ''Cloudflare IP''\<rparr>,
                           \<lparr>Cidr = Some ''3.3.3.0/24'', Description = Some ''Cloudflare IP''\<rparr>])
                    None)])"
  by code_simp

theorem absent_version_and_capacity_witness:
  "describe_pl_with_retries g_demo ec2_bare ''pl-9'' None [] =
     Some (Inr (empty_dict\<lparr>PrefixListId := Some ''pl-9''\<rparr>),
           [Call (DescribeManagedPrefixLists (Some [''pl-9'']) None)])
   \<and> get_pl_entries g_demo ec2_bare ''pl-9'' None [] =
     Some (Inr (1, {||}, 0, []),
           [Call (DescribeManagedPrefixLists (Some [''pl-9'']) None),
            Call (GetManagedPrefixListEntries ''pl-9'' None)])
   \<and> Version (empty_dict\<lparr>PrefixListId := Some ''pl-9''\<rparr>) = None
   \<and> MaxEntries (empty_dict\<lparr>PrefixListId := Some ''pl-9''\<rparr>) = None
   \<and> \<not> is_capacity
         (Inr \<lparr>id_res = ''pl-9'', from_version = 1, to_version = 2,
                added = [''1.1.1.0/24'', ''2.2.2.0/24'', ''3.3.3.0/24''], removed = [],
                changed = True, remark = Summary_applied ''pl-9'' 3 0 2\<rparr> :: error + result)"
  using bare_locate bare_read bare_run absent_version_and_capacity [OF bare_locate bare_read]
  by (simp add: empty_dict_def)


section \<open>Failures during discovery\<close>




section \<open>Failure of the first target\<close>





section \<open>Version conflicts\<close>

lemma modify_calls_snoc_modify [simp]:
  "modify_calls (tr @ [Call (ModifyManagedPrefixList p v a r)]) =
     modify_calls tr @ [Call (ModifyManagedPrefixList p v a r)]"
  by (simp add: modify_calls_def)

text \<open>
  C4. When an update call is rejected with a \<open>ClientError\<close> whose text mentions the
  version, and locating the prefix list again succeeds, \<open>_modify\<close> makes exactly one more
  update call, with the same two batches and with the version of the record just located
  (the old version when that record carries none). The outcome of that second call is the
  outcome of \<open>_modify\<close>: when it raises, the exception propagates and the history ends
  with the second call, so the batch is tried twice and never a third time.
\<close>

theorem conflict_retried_once:
  assumes rej: "api ec2 tr (ModifyManagedPrefixList pid vh (keep_truthy a) (keep_truthy r))
                  = Inl (ClientError msg)"
    and conflict: "version_conflict msg"
    and refetch: "describe_pl_with_retries g ec2 pid name
                    (tr @ [Call (ModifyManagedPrefixList pid vh (keep_truthy a) (keep_truthy r))])
                    = Some (Inr fresh, tr2)"
  shows "modify g ec2 pid name a r vh tr =
           Some (case api ec2 tr2 (ModifyManagedPrefixList pid (int_or (Version fresh) vh)
                                     (keep_truthy a) (keep_truthy r)) of
                   Inr resp \<Rightarrow> returned_version resp
                 | Inl e \<Rightarrow> Inl (Raised e),
                 tr2 @ [Call (ModifyManagedPrefixList pid (int_or (Version fresh) vh)
                                (keep_truthy a) (keep_truthy r))])
         \<and> modify_calls
             (tr2 @ [Call (ModifyManagedPrefixList pid (int_or (Version fresh) vh)
                             (keep_truthy a) (keep_truthy r))])
           = modify_calls tr
             @ [Call (ModifyManagedPrefixList pid vh (keep_truthy a) (keep_truthy r)),
                Call (ModifyManagedPrefixList pid (int_or (Version fresh) vh)
                        (keep_truthy a) (keep_truthy r))]
         \<and> (\<forall>v'. Version fresh = Some v' \<and> v' \<noteq> 0 \<longrightarrow> int_or (Version fresh) vh = v')
         \<and> (\<forall>e. api ec2 tr2 (ModifyManagedPrefixList pid (int_or (Version fresh) vh)
                                (keep_truthy a) (keep_truthy r)) = Inl e
                \<longrightarrow> modify g ec2 pid name a r vh tr =
                      Some (Inl (Raised e),
                            tr2 @ [Call (ModifyManagedPrefixList pid (int_or (Version fresh) vh)
                                           (keep_truthy a) (keep_truthy r))]))"
proof -
  note m = modify_unfold_conflict [OF rej conflict refetch]
  from describe_pl_with_retries_frame [OF refetch]
  have "modify_calls tr2 =
          modify_calls tr @ [Call (ModifyManagedPrefixList pid vh (keep_truthy a) (keep_truthy r))]"
    by simp
  then show ?thesis using m by (auto simp: int_or_def)
qed

lemma stale_refetch:
  "describe_pl_with_retries g_demo ec2_stale ''pl-1'' None
     ([] @ [Call (ModifyManagedPrefixList ''pl-1'' 3
                    (keep_truthy (Some [add_entry [] ''1.1.1.0/24''])) (keep_truthy None))])
   = Some (Inr (pl_demo\<lparr>Version := Some 5\<rparr>),
           [Call (ModifyManagedPrefixList ''pl-1'' 3
                    (Some [add_entry [] ''1.1.1.0/24'']) None),
            Call (DescribeManagedPrefixLists (Some [''pl-1'']) None)])"
  by code_simp

theorem conflict_retried_once_witness:
  "api ec2_stale [] (ModifyManagedPrefixList ''pl-1'' 3
                       (keep_truthy (Some [add_entry [] ''1.1.1.0/24''])) (keep_truthy None))
     = Inl (ClientError ''The prefix list has the incorrect version number.'')
   \<and> version_conflict ''The prefix list has the incorrect version number.''
   \<and> describe_pl_with_retries g_demo ec2_stale ''pl-1'' None
       ([] @ [Call (ModifyManagedPrefixList ''pl-1'' 3
                      (keep_truthy (Some [add_entry [] ''1.1.1.0/24''])) (keep_truthy None))])
     = Some (Inr (pl_demo\<lparr>Version := Some 5\<rparr>),
             [Call (ModifyManagedPrefixList ''pl-1'' 3
                      (Some [add_entry [] ''1.1.1.0/24'']) None),
              Call (DescribeManagedPrefixLists (Some [''pl-1'']) None)])
   \<and> modify g_demo ec2_stale ''pl-1'' None (Some [add_entry [] ''1.1.1.0/24'']) None 3 []
     = Some (Inl (Raised (ClientError ''The prefix list has the incorrect version number.'')),
             [Call (ModifyManagedPrefixList ''pl-1'' 3
                      (Some [add_entry [] ''1.1.1.0/24'']) None),
              Call (DescribeManagedPrefixLists (Some [''pl-1'']) None),
              Call (ModifyManagedPrefixList ''pl-1'' 5
                      (Some [add_entry [] ''1.1.1.0/24'']) None)])"
proof -
  have h1: "api ec2_stale [] (ModifyManagedPrefixList ''pl-1'' 3
                       (keep_truthy (Some [add_entry [] ''1.1.1.0/24''])) (keep_truthy None))
     = Inl (ClientError ''The prefix list has the incorrect version number.'')"
    by (simp add: ec2_stale_def)
  have h2: "version_conflict ''The prefix list has the incorrect version number.''"
    by code_simp
  have k: "keep_truthy (Some [add_entry [] ''1.1.1.0/24'']) = Some [add_entry [] ''1.1.1.0/24'']"
    "keep_truthy (None :: entry list option) = None"
    by (simp_all add: keep_truthy_def truthy_def)
  have v: "int_or (Version (pl_demo\<lparr>Version := Some 5\<rparr>)) 3 = 5"
    by (simp add: int_or_def)
  have h4: "api ec2_stale
              [Call (ModifyManagedPrefixList ''pl-1'' 3 (Some [add_entry [] ''1.1.1.0/24'']) None),
               Call (DescribeManagedPrefixLists (Some [''pl-1'']) None)]
              (ModifyManagedPrefixList ''pl-1'' 5 (Some [add_entry [] ''1.1.1.0/24'']) None)
            = Inl (ClientError ''The prefix list has the incorrect version number.'')"
    by (simp add: ec2_stale_def)
  show ?thesis
    using h1 h2 stale_refetch conflict_retried_once [OF h1 h2 stale_refetch] h4
    by (simp add: k v)
qed


section \<open>Batches\<close>

lemma batch_calls_Suc:
  "batch_calls pid A R ver (Suc n) = batch_calls pid A R ver n @ [Call (batch_call pid A R ver n)]"
  by (simp add: batch_calls_def)

lemma modify_accepted:
  assumes "api ec2 tr (ModifyManagedPrefixList pid vh (keep_truthy a) (keep_truthy r)) = Inr resp"
  shows "modify g ec2 pid name a r vh tr =
           Some (returned_version resp,
                 tr @ [Call (ModifyManagedPrefixList pid vh (keep_truthy a) (keep_truthy r))])"
  using assms by (simp add: modify_def Let_def)

lemma apply_batches_run:
  assumes acc: "accepts ec2 tr pid A R ver"
    and n: "n = max (length A) (length R)"
  shows "j \<le> n \<Longrightarrow>
         apply_batches g ec2 pid name A R (min j (length A)) (min j (length R)) (ver j)
           (tr @ batch_calls pid A R ver j)
         = Some (Inr (ver n), tr @ batch_calls pid A R ver n)"
proof (induction "n - j" arbitrary: j)
  case 0
  then have "j = n" by simp
  then have "\<not> (min j (length A) < length A \<or> min j (length R) < length R)"
    using n by auto
  from apply_batches_done [OF this] \<open>j = n\<close> show ?case by simp
next
  case (Suc d)
  then have jn: "j < n" by simp
  then have cond: "min j (length A) < length A \<or> min j (length R) < length R"
    using n by auto
  have a: "(if min j (length A) < length A then Some (A ! min j (length A)) else None)
           = (if j < length A then Some (A ! j) else None)"
    by (auto simp: min_def)
  have r: "(if min j (length R) < length R then Some (R ! min j (length R)) else None)
           = (if j < length R then Some (R ! j) else None)"
    by (auto simp: min_def)
  have ai: "(if min j (length A) < length A then min j (length A) + 1 else min j (length A))
            = min (Suc j) (length A)"
    by (auto simp: min_def)
  have ri: "(if min j (length R) < length R then min j (length R) + 1 else min j (length R))
            = min (Suc j) (length R)"
    by (auto simp: min_def)
  from acc jn n
  have "case api ec2 (tr @ batch_calls pid A R ver j) (batch_call pid A R ver j) of
          Inr resp \<Rightarrow> returned_version resp = Inr (ver (Suc j))
        | Inl e \<Rightarrow> False"
    by (simp add: accepts_def)
  then obtain resp where
    resp: "api ec2 (tr @ batch_calls pid A R ver j) (batch_call pid A R ver j) = Inr resp"
    and ver: "returned_version resp = Inr (ver (Suc j))"
    by (cases "api ec2 (tr @ batch_calls pid A R ver j) (batch_call pid A R ver j)") auto
  from modify_accepted [OF resp [unfolded batch_call_def]] ver
  have m: "modify g ec2 pid name
             (if j < length A then Some (A ! j) else None)
             (if j < length R then Some (R ! j) else None) (ver j)
             (tr @ batch_calls pid A R ver j)
           = Some (Inr (ver (Suc j)), tr @ batch_calls pid A R ver (Suc j))"
    by (simp add: batch_calls_Suc batch_call_def)
  from Suc have "d = n - Suc j" and "Suc j \<le> n" by simp_all
  from Suc(1) [OF this] show ?case
    by (subst apply_batches_step [OF cond]) (simp only: a r ai ri m option.case prod.case sum.case)
qed

lemma chunks_Nil [simp]: "chunks [] n = []"
  by (simp add: chunks.simps)

lemma chunks_step: "0 < n \<Longrightarrow> xs \<noteq> [] \<Longrightarrow> chunks xs n = take n xs # chunks (drop n xs) n"
  by (subst chunks.simps) simp

lemma concat_chunks: "0 < n \<Longrightarrow> concat (chunks xs n) = xs"
proof (induction xs n rule: chunks.induct)
  case (1 seq n)
  show ?case
  proof (cases "seq = []")
    case True
    then show ?thesis by simp
  next
    case False
    with 1 show ?thesis by (simp add: chunks_step)
  qed
qed

lemma chunks_sizes: "b \<in> set (chunks xs n) \<Longrightarrow> b \<noteq> [] \<and> length b \<le> n"
proof (induction xs n arbitrary: b rule: chunks.induct)
  case (1 seq n)
  show ?case
  proof (cases "n = 0 \<or> seq = []")
    case True
    with 1(2) show ?thesis by (auto simp: chunks.simps)
  next
    case False
    with 1(2) have "b = take n seq \<or> b \<in> set (chunks (drop n seq) n)"
      by (simp add: chunks_step)
    then show ?thesis
    proof
      assume "b = take n seq"
      with False show ?thesis by auto
    next
      assume "b \<in> set (chunks (drop n seq) n)"
      from 1(1) [OF False this] show ?thesis .
    qed
  qed
qed

lemma chunks_nth:
  "0 < n \<Longrightarrow> k < length (chunks xs n) \<Longrightarrow> chunks xs n ! k = take n (drop (k * n) xs)"
proof (induction xs n arbitrary: k rule: chunks.induct)
  case (1 seq n)
  show ?case
  proof (cases "seq = []")
    case True
    with 1(3) show ?thesis by simp
  next
    case False
    with 1(2) have st: "chunks seq n = take n seq # chunks (drop n seq) n"
      by (simp add: chunks_step)
    show ?thesis
    proof (cases k)
      case 0
      with st show ?thesis by simp
    next
      case (Suc k')
      with 1(3) st have "k' < length (chunks (drop n seq) n)" by simp
      from 1(1) [OF _ 1(2) this] False 1(2)
      have "chunks (drop n seq) n ! k' = take n (drop (k' * n) (drop n seq))" by simp
      with st Suc show ?thesis by (simp add: add.commute)
    qed
  qed
qed

lemma length_chunks: "0 < n \<Longrightarrow> length (chunks xs n) = (length xs + n - 1) div n"
proof (induction xs n rule: chunks.induct)
  case (1 seq n)
  show ?case
  proof (cases "seq = []")
    case True
    with 1(2) show ?thesis by simp
  next
    case False
    with 1 have IH: "length (chunks (drop n seq) n) = (length seq - n + n - 1) div n"
      by simp
    from False 1(2) have st: "chunks seq n = take n seq # chunks (drop n seq) n"
      by (simp add: chunks_step)
    show ?thesis
    proof (cases "length seq \<le> n")
      case True
      from False have "0 < length seq" by simp
      have "\<And>l. 0 < l \<Longrightarrow> l \<le> n \<Longrightarrow> (l + n - 1) div n = (1 :: nat)"
        by (intro div_nat_eqI) auto
      from this [OF \<open>0 < length seq\<close> True] have "(length seq + n - 1) div n = 1" .
      with True st 1(2) show ?thesis by (simp add: chunks.simps)
    next
      case False
      have step: "(l + n - 1) div n = Suc ((l - n + n - 1) div n)" if "n < l" for l
      proof -
        from that have e1: "l + n - 1 = (l - 1) + n" and e2: "l - n + n - 1 = l - 1"
          by arith+
        from 1(2) have "((l - 1) + n) div n = Suc ((l - 1) div n)" by simp
        with e1 e2 show ?thesis by (simp only:)
      qed
      from False have "n < length seq" by simp
      from step [OF this] st IH show ?thesis by (simp only: list.size length_Cons)
    qed
  qed
qed


text \<open>
  C6. For a delta that is not empty, on an owned list with room for the desired set: the
  entries to add and the entries to remove are each cut into consecutive slices of at
  most \<open>MAX_BATCH = 80\<close> entries, none of them empty, batch \<open>k\<close> being entries \<open>80 k\<close> up to
  \<open>80 k + 80\<close>. When the provider accepts the calls, answering call \<open>k\<close> with the version
  \<open>ver (k + 1)\<close>, \<open>apply_delta\<close> issues exactly \<open>max\<close> of the two batch counts update calls
  and nothing else; call \<open>k\<close> carries the \<open>k\<close>-th add batch and the \<open>k\<close>-th remove batch,
  where there is one, and the version \<open>ver k\<close>, which for \<open>k = 0\<close> is the version read and
  otherwise the version the call before returned. The result reports the last version.
  With 85 entries to add and none to remove there are two calls, of 80 and of 5 entries,
  the second with the version the first returned.
\<close>

theorem batches_applied_in_order:
  assumes rd: "get_pl_entries g ec2 pid name tr = Some (Inr (v0, hv, m, owner), tr1)"
    and owned: "owner = [] \<or> owner = acct"
    and fits: "m = 0 \<or> int (fcard (fset_of_list want_list)) \<le> m"
    and delta: "fset_of_list want_list \<noteq> hv"
    and A: "A = chunks (map (add_entry desc) (to_add_of (fset_of_list want_list) hv)) MAX_BATCH"
    and R: "R = chunks (map rem_entry (to_remove_of (fset_of_list want_list) hv)) MAX_BATCH"
    and v0: "ver 0 = v0"
    and acc: "accepts ec2 tr1 pid A R ver"
  shows "apply_delta g ec2 pid desc want_list name acct tr =
           Some (Inr \<lparr>id_res = pid, from_version = v0,
                      to_version = ver (max (length A) (length R)),
                      added = to_add_of (fset_of_list want_list) hv,
                      removed = to_remove_of (fset_of_list want_list) hv,
                      changed = True,
                      remark = Summary_applied pid
                                 (length (to_add_of (fset_of_list want_list) hv))
                                 (length (to_remove_of (fset_of_list want_list) hv))
                                 (ver (max (length A) (length R)))\<rparr>,
                 tr1 @ batch_calls pid A R ver (max (length A) (length R)))
         \<and> concat A = map (add_entry desc) (to_add_of (fset_of_list want_list) hv)
         \<and> concat R = map rem_entry (to_remove_of (fset_of_list want_list) hv)
         \<and> (\<forall>b \<in> set A \<union> set R. b \<noteq> [] \<and> length b \<le> MAX_BATCH)
         \<and> (\<forall>k < length A. A ! k =
               take MAX_BATCH (drop (k * MAX_BATCH)
                 (map (add_entry desc) (to_add_of (fset_of_list want_list) hv))))
         \<and> (\<forall>k < length R. R ! k =
               take MAX_BATCH (drop (k * MAX_BATCH)
                 (map rem_entry (to_remove_of (fset_of_list want_list) hv))))
         \<and> length A = (length (to_add_of (fset_of_list want_list) hv) + MAX_BATCH - 1)
                          div MAX_BATCH
         \<and> length R = (length (to_remove_of (fset_of_list want_list) hv) + MAX_BATCH - 1)
                          div MAX_BATCH
         \<and> (\<forall>k. batch_call pid A R ver k =
               ModifyManagedPrefixList pid (ver k)
                 (if k < length A then Some (A ! k) else None)
                 (if k < length R then Some (R ! k) else None))
         \<and> (length (to_add_of (fset_of_list want_list) hv) = 85
              \<and> to_remove_of (fset_of_list want_list) hv = []
            \<longrightarrow> length A = 2 \<and> length (A ! 0) = 80 \<and> length (A ! 1) = 5 \<and> R = []
                \<and> (\<exists>r. apply_delta g ec2 pid desc want_list name acct tr =
                     Some (Inr r,
                       tr1 @ [Call (ModifyManagedPrefixList pid v0 (Some (A ! 0)) None),
                              Call (ModifyManagedPrefixList pid (ver 1) (Some (A ! 1)) None)])
                     \<and> to_version r = ver 2 \<and> changed r))"
proof -
  have pos: "0 < MAX_BATCH" by (simp add: MAX_BATCH_def)
  have sizes: "\<forall>b \<in> set A \<union> set R. b \<noteq> [] \<and> length b \<le> MAX_BATCH"
    unfolding A R by (auto dest: chunks_sizes)
  have calls: "batch_call pid A R ver k =
               ModifyManagedPrefixList pid (ver k)
                 (if k < length A then Some (A ! k) else None)
                 (if k < length R then Some (R ! k) else None)" for k
    using sizes by (auto simp: batch_call_def keep_truthy_def truthy_def)
  from delta have ne: "\<not> (to_add_of (fset_of_list want_list) hv = []
                         \<and> to_remove_of (fset_of_list want_list) hv = [])"
    by (simp add: delta_empty_iff)
  from apply_batches_run [OF acc refl, of 0 g name] v0
  have run: "apply_batches g ec2 pid name A R 0 0 v0 tr1 =
               Some (Inr (ver (max (length A) (length R))),
                     tr1 @ batch_calls pid A R ver (max (length A) (length R)))"
    by (simp add: batch_calls_def)
  from ne have ch: "(to_add_of (fset_of_list want_list) hv \<noteq> []
                     \<or> to_remove_of (fset_of_list want_list) hv \<noteq> []) = True"
    by simp
  have main: "apply_delta g ec2 pid desc want_list name acct tr =
           Some (Inr \<lparr>id_res = pid, from_version = v0,
                      to_version = ver (max (length A) (length R)),
                      added = to_add_of (fset_of_list want_list) hv,
                      removed = to_remove_of (fset_of_list want_list) hv,
                      changed = True,
                      remark = Summary_applied pid
                                 (length (to_add_of (fset_of_list want_list) hv))
                                 (length (to_remove_of (fset_of_list want_list) hv))
                                 (ver (max (length A) (length R)))\<rparr>,
                 tr1 @ batch_calls pid A R ver (max (length A) (length R)))"
    using rd owned fits ne run
    by (auto simp: apply_delta_def bind_io_Inr return_io_def A R)
  note main
  moreover have "concat A = map (add_entry desc) (to_add_of (fset_of_list want_list) hv)"
    and "concat R = map rem_entry (to_remove_of (fset_of_list want_list) hv)"
    unfolding A R by (simp_all add: concat_chunks pos)
  moreover have "\<forall>k < length A. A ! k =
               take MAX_BATCH (drop (k * MAX_BATCH)
                 (map (add_entry desc) (to_add_of (fset_of_list want_list) hv)))"
    and "\<forall>k < length R. R ! k =
               take MAX_BATCH (drop (k * MAX_BATCH)
                 (map rem_entry (to_remove_of (fset_of_list want_list) hv)))"
    unfolding A R using pos by (simp_all add: chunks_nth)
  moreover have "length A = (length (to_add_of (fset_of_list want_list) hv) + MAX_BATCH - 1)
                          div MAX_BATCH"
    and "length R = (length (to_remove_of (fset_of_list want_list) hv) + MAX_BATCH - 1)
                          div MAX_BATCH"
    unfolding A R using pos by (simp_all add: length_chunks)
  moreover have "length (to_add_of (fset_of_list want_list) hv) = 85
              \<and> to_remove_of (fset_of_list want_list) hv = []
            \<longrightarrow> length A = 2 \<and> length (A ! 0) = 80 \<and> length (A ! 1) = 5 \<and> R = []
                \<and> (\<exists>r. apply_delta g ec2 pid desc want_list name acct tr =
                     Some (Inr r,
                       tr1 @ [Call (ModifyManagedPrefixList pid v0 (Some (A ! 0)) None),
                              Call (ModifyManagedPrefixList pid (ver 1) (Some (A ! 1)) None)])
                     \<and> to_version r = ver 2 \<and> changed r)"
  proof
    assume h: "length (to_add_of (fset_of_list want_list) hv) = 85
               \<and> to_remove_of (fset_of_list want_list) hv = []"
    let ?adds = "map (add_entry desc) (to_add_of (fset_of_list want_list) hv)"
    from h have len: "length ?adds = 85" by simp
    from h have R0: "R = []" by (simp add: R)
    from len pos have lA: "length A = 2"
      by (simp add: A length_chunks MAX_BATCH_def)
    from lA pos have "A ! 0 = take MAX_BATCH (drop (0 * MAX_BATCH) ?adds)"
      and "A ! 1 = take MAX_BATCH (drop (1 * MAX_BATCH) ?adds)"
      unfolding A by (simp_all add: chunks_nth)
    with len have l0: "length (A ! 0) = 80" and l1: "length (A ! 1) = 5"
      by (simp_all add: MAX_BATCH_def)
    have "[0..<2] = [0, Suc 0]" by (simp add: upt_rec)
    then have "batch_calls pid A R ver 2 =
                 [Call (batch_call pid A R ver 0), Call (batch_call pid A R ver (Suc 0))]"
      by (simp add: batch_calls_def)
    then have "batch_calls pid A R ver 2 =
                 [Call (ModifyManagedPrefixList pid (ver 0)
                          (if 0 < length A then Some (A ! 0) else None)
                          (if 0 < length R then Some (R ! 0) else None)),
                  Call (ModifyManagedPrefixList pid (ver (Suc 0))
                          (if Suc 0 < length A then Some (A ! Suc 0) else None)
                          (if Suc 0 < length R then Some (R ! Suc 0) else None))]"
      by (simp only: calls)
    with lA R0 v0 have "batch_calls pid A R ver (max (length A) (length R)) =
                    [Call (ModifyManagedPrefixList pid v0 (Some (A ! 0)) None),
                     Call (ModifyManagedPrefixList pid (ver 1) (Some (A ! 1)) None)]"
      by simp
    moreover from lA R0 have "max (length A) (length R) = 2" by simp
    ultimately have "\<exists>r. apply_delta g ec2 pid desc want_list name acct tr =
                     Some (Inr r,
                       tr1 @ [Call (ModifyManagedPrefixList pid v0 (Some (A ! 0)) None),
                              Call (ModifyManagedPrefixList pid (ver 1) (Some (A ! 1)) None)])
                     \<and> to_version r = ver 2 \<and> changed r"
      using main by simp
    with lA l0 l1 R0 show "length A = 2 \<and> length (A ! 0) = 80 \<and> length (A ! 1) = 5 \<and> R = []
                \<and> (\<exists>r. apply_delta g ec2 pid desc want_list name acct tr =
                     Some (Inr r,
                       tr1 @ [Call (ModifyManagedPrefixList pid v0 (Some (A ! 0)) None),
                              Call (ModifyManagedPrefixList pid (ver 1) (Some (A ! 1)) None)])
                     \<and> to_version r = ver 2 \<and> changed r)"
      by simp
  qed
  ultimately show ?thesis using sizes calls by blast
qed

lemma ascending_strict: "ascending xs \<Longrightarrow> sorted_wrt (<) xs"
proof (induction xs rule: ascending.induct)
  case (1 x y zs)
  then have "x < y" and s: "sorted_wrt (<) (y # zs)" by simp_all
  then have "\<forall>z \<in> set (y # zs). x < z" by (auto intro: less_trans)
  with s show ?case by simp
qed simp_all

lemma to_add_of_ascending:
  assumes "ascending xs"
  shows "to_add_of (fset_of_list xs) {||} = xs"
proof -
  from ascending_strict [OF assms] have "sorted xs" and "distinct xs"
    by (simp_all add: strict_sorted_iff)
  then have "sorted_list_of_set (set xs) = xs"
    by (rule sorted_list_of_set.idem_if_sorted_distinct)
  then show ?thesis
    by (simp add: to_add_of_def sorted_list_of_fset.rep_eq fset_of_list.rep_eq)
qed

lemma to_remove_of_empty: "to_remove_of W {||} = []"
  by (simp add: to_remove_of_def sorted_list_of_fset.rep_eq)

lemma accepts_demo: "accepts (demo_client pl es) tr pid A R (\<lambda>k. v + int k)"
  by (simp add: accepts_def demo_client_def batch_call_def returned_version_def
        empty_response_def add.assoc)

lemma cf85_ascending: "ascending cf85"
  by code_simp

lemma cf85_length: "length cf85 = 85"
  by (simp add: cf85_def)

lemma cf85_read:
  "get_pl_entries g_demo ec2_bare ''pl-9'' None [] =
     Some (Inr (1, {||}, 0, []),
           [Call (DescribeManagedPrefixLists (Some [''pl-9'']) None),
            Call (GetManagedPrefixListEntries ''pl-9'' None)])"
  by code_simp

theorem batches_applied_in_order_witness:
  "get_pl_entries g_demo ec2_bare ''pl-9'' None [] =
     Some (Inr (1, {||}, 0, []),
           [Call (DescribeManagedPrefixLists (Some [''pl-9'']) None),
            Call (GetManagedPrefixListEntries ''pl-9'' None)])
   \<and> ([] = ([] :: string) \<or> [] = ''111'')
   \<and> ((0 :: int) = 0 \<or> int (fcard (fset_of_list cf85)) \<le> 0)
   \<and> fset_of_list cf85 \<noteq> {||}
   \<and> accepts ec2_bare
        [Call (DescribeManagedPrefixLists (Some [''pl-9'']) None),
         Call (GetManagedPrefixListEntries ''pl-9'' None)]
        ''pl-9'' (chunks (map (add_entry []) cf85) MAX_BATCH) [] (\<lambda>k. 1 + int k)
   \<and> length (to_add_of (fset_of_list cf85) {||}) = 85
   \<and> to_remove_of (fset_of_list cf85) {||} = []
   \<and> length (chunks (map (add_entry []) cf85) MAX_BATCH) = 2
   \<and> length (chunks (map (add_entry []) cf85) MAX_BATCH ! 0) = 80
   \<and> length (chunks (map (add_entry []) cf85) MAX_BATCH ! 1) = 5
   \<and> (\<exists>r. apply_delta g_demo ec2_bare ''pl-9'' [] cf85 None ''111'' [] =
         Some (Inr r,
               [Call (DescribeManagedPrefixLists (Some [''pl-9'']) None),
                Call (GetManagedPrefixListEntries ''pl-9'' None),
                Call (ModifyManagedPrefixList ''pl-9'' 1
                        (Some (chunks (map (add_entry []) cf85) MAX_BATCH ! 0)) None),
                Call (ModifyManagedPrefixList ''pl-9'' 2
                        (Some (chunks (map (add_entry []) cf85) MAX_BATCH ! 1)) None)])
         \<and> to_version r = 3 \<and> changed r)"
proof -
  note add = to_add_of_ascending [OF cf85_ascending]
  note rem = to_remove_of_empty [of "fset_of_list cf85"]
  have h2: "[] = ([] :: string) \<or> [] = ''111''" by simp
  have h3: "(0 :: int) = 0 \<or> int (fcard (fset_of_list cf85)) \<le> 0" by simp
  have h4: "fset_of_list cf85 \<noteq> {||}" by (simp add: cf85_def)
  have h7: "(\<lambda>k. 1 + int k) 0 = 1" by simp
  have h8: "accepts ec2_bare
        [Call (DescribeManagedPrefixLists (Some [''pl-9'']) None),
         Call (GetManagedPrefixListEntries ''pl-9'' None)]
        ''pl-9''
        (chunks (map (add_entry []) (to_add_of (fset_of_list cf85) {||})) MAX_BATCH)
        (chunks (map rem_entry (to_remove_of (fset_of_list cf85) {||})) MAX_BATCH)
        (\<lambda>k. 1 + int k)"
    unfolding ec2_bare_def by (rule accepts_demo)
  have l: "length (to_add_of (fset_of_list cf85) {||}) = 85
           \<and> to_remove_of (fset_of_list cf85) {||} = []"
    by (simp add: add rem cf85_length)
  from batches_applied_in_order [OF cf85_read h2 h3 h4 refl refl h7 h8]
  have "length (to_add_of (fset_of_list cf85) {||}) = 85
           \<and> to_remove_of (fset_of_list cf85) {||} = []
        \<longrightarrow> length (chunks (map (add_entry []) (to_add_of (fset_of_list cf85) {||})) MAX_BATCH) = 2
          \<and> length (chunks (map (add_entry []) (to_add_of (fset_of_list cf85) {||})) MAX_BATCH ! 0) = 80
          \<and> length (chunks (map (add_entry []) (to_add_of (fset_of_list cf85) {||})) MAX_BATCH ! 1) = 5
          \<and> chunks (map rem_entry (to_remove_of (fset_of_list cf85) {||})) MAX_BATCH = []
          \<and> (\<exists>r. apply_delta g_demo ec2_bare ''pl-9'' [] cf85 None ''111'' [] =
               Some (Inr r,
                 [Call (DescribeManagedPrefixLists (Some [''pl-9'']) None),
                  Call (GetManagedPrefixListEntries ''pl-9'' None)]
                 @ [Call (ModifyManagedPrefixList ''pl-9'' 1
                      (Some (chunks (map (add_entry []) (to_add_of (fset_of_list cf85) {||}))
                               MAX_BATCH ! 0)) None),
                    Call (ModifyManagedPrefixList ''pl-9'' ((\<lambda>k. 1 + int k) 1)
                      (Some (chunks (map (add_entry []) (to_add_of (fset_of_list cf85) {||}))
                               MAX_BATCH ! 1)) None)])
               \<and> to_version r = (\<lambda>k. 1 + int k) 2 \<and> changed r)"
    by blast
  with l have "length (chunks (map (add_entry []) (to_add_of (fset_of_list cf85) {||})) MAX_BATCH) = 2
          \<and> length (chunks (map (add_entry []) (to_add_of (fset_of_list cf85) {||})) MAX_BATCH ! 0) = 80
          \<and> length (chunks (map (add_entry []) (to_add_of (fset_of_list cf85) {||})) MAX_BATCH ! 1) = 5
          \<and> chunks (map rem_entry (to_remove_of (fset_of_list cf85) {||})) MAX_BATCH = []
          \<and> (\<exists>r. apply_delta g_demo ec2_bare ''pl-9'' [] cf85 None ''111'' [] =
               Some (Inr r,
                 [Call (DescribeManagedPrefixLists (Some [''pl-9'']) None),
                  Call (GetManagedPrefixListEntries ''pl-9'' None)]
                 @ [Call (ModifyManagedPrefixList ''pl-9'' 1
                      (Some (chunks (map (add_entry []) (to_add_of (fset_of_list cf85) {||}))
                               MAX_BATCH ! 0)) None),
                    Call (ModifyManagedPrefixList ''pl-9'' ((\<lambda>k. 1 + int k) 1)
                      (Some (chunks (map (add_entry []) (to_add_of (fset_of_list cf85) {||}))
                               MAX_BATCH ! 1)) None)])
               \<and> to_version r = (\<lambda>k. 1 + int k) 2 \<and> changed r)"
    by (rule rev_mp)
  then have "length (chunks (map (add_entry []) cf85) MAX_BATCH) = 2
   \<and> length (chunks (map (add_entry []) cf85) MAX_BATCH ! 0) = 80
   \<and> length (chunks (map (add_entry []) cf85) MAX_BATCH ! 1) = 5
   \<and> (\<exists>r. apply_delta g_demo ec2_bare ''pl-9'' [] cf85 None ''111'' [] =
         Some (Inr r,
               [Call (DescribeManagedPrefixLists (Some [''pl-9'']) None),
                Call (GetManagedPrefixListEntries ''pl-9'' None),
                Call (ModifyManagedPrefixList ''pl-9'' 1
                        (Some (chunks (map (add_entry []) cf85) MAX_BATCH ! 0)) None),
                Call (ModifyManagedPrefixList ''pl-9'' 2
                        (Some (chunks (map (add_entry []) cf85) MAX_BATCH ! 1)) None)])
         \<and> to_version r = 3 \<and> changed r)"
    by (simp add: add)
  moreover note cf85_read h2 h3 h4 h8 [unfolded add rem chunks_Nil list.map] l
  ultimately show ?thesis by (simp add: add)
qed


section \<open>The merged listing\<close>











lemma PrefixListId_as_common_record [simp]: "PrefixListId (as_common_record p) = PrefixListId p"
  by (auto simp: as_common_record_def common_record_def truthy_def split: option.splits)










end
